theory Spec2Isabelle
  imports Main "HOL-Library.Word"
begin

unbundle bit_operations_syntax

section \<open>The register file of \<open>GameBoyColorCPU\<close> (src/cpu/cpu.py)\<close>

text \<open>
  Python integers are unbounded, so every register is an \<open>int\<close>; the masks of the
  source (\<open>& 0xFF\<close>, \<open>& 0xFFFF\<close>) are written out with \<open>AND\<close>, its shifts with
  \<open>push_bit\<close> (\<open><<\<close>) and \<open>drop_bit\<close> (\<open>>>\<close>, which floors as Python's does).
  A register pair is the two-element list \<open>[HIGH, LOW]\<close> of the source
  (\<open>RegisterConstants.HIGH = 0\<close>, \<open>RegisterConstants.LOW = 1\<close>).
  The program memory \<open>game_data\<close> is a Python \<open>bytes\<close> object: a sequence of
  8-bit values that indexing reads as integers in \<open>range(256)\<close>.
  The fields \<open>__freq_mhz\<close> and \<open>__cpu_time\<close> are floating-point constants that only
  feed \<open>time.sleep\<close>; they carry no state and are left out.
\<close>

type_synonym byte = "8 word"

record regpair =
  HIGH :: int
  LOW :: int

record cpu =
  AF :: regpair
  BC :: regpair
  DE :: regpair
  HL :: regpair
  SP :: int
  PC :: int
  ticks :: int
  game_data :: "byte list"

text \<open>\<open>__init__\<close>: every register, the counters and the clock start at zero.\<close>

definition GameBoyColorCPU :: "byte list \<Rightarrow> cpu" where
  "GameBoyColorCPU data =
     \<lparr>AF = \<lparr>HIGH = 0x00, LOW = 0x00\<rparr>,
      BC = \<lparr>HIGH = 0x00, LOW = 0x00\<rparr>,
      DE = \<lparr>HIGH = 0x00, LOW = 0x00\<rparr>,
      HL = \<lparr>HIGH = 0x00, LOW = 0x00\<rparr>,
      SP = 0x00, PC = 0x00, ticks = 0, game_data = data\<rparr>"

subsection \<open>Exceptions\<close>

text \<open>
  Two exceptions can leave the engine: \<open>IndexError\<close>, from indexing \<open>game_data\<close>
  out of range, and \<open>KeyError\<close>, from looking up an opcode that the table lacks.
  An exception leaves the object as the statements before the raise made it, so an
  error carries the state reached.
\<close>

datatype error = IndexError | KeyError int

type_synonym result = "(error \<times> cpu) + cpu"

text \<open>
  \<open>self.__game_data[i]\<close>: Python indexing. A negative index counts from the end;
  an index outside \<open>[-len, len)\<close> raises \<open>IndexError\<close>.
\<close>

definition getitem :: "byte list \<Rightarrow> int \<Rightarrow> error + int" where
  "getitem xs i =
     (let n = int (length xs); j = (if i < 0 then n + i else i)
      in if 0 \<le> j \<and> j < n then Inr (uint (xs ! nat j)) else Inl IndexError)"

text \<open>
  \<open>self.__BC == 0\<close> compares a list object with an integer. The two kinds of
  object that meet in such a comparison are kept apart: integers compare by value,
  lists element by element, and a list is never equal to an integer (Python's
  \<open>list.__eq__\<close> and \<open>int.__eq__\<close> both answer \<open>NotImplemented\<close> for the other
  kind, and \<open>==\<close> falls back to identity).
\<close>

datatype pyobj = PyInt int | PyList "int list"

fun py_eq :: "pyobj \<Rightarrow> pyobj \<Rightarrow> bool" where
  "py_eq (PyInt a) (PyInt b) = (a = b)"
| "py_eq (PyList xs) (PyList ys) = (xs = ys)"
| "py_eq (PyInt a) (PyList ys) = False"
| "py_eq (PyList xs) (PyInt b) = False"

text \<open>A register pair as the list object it is in the source.\<close>

definition as_list :: "regpair \<Rightarrow> pyobj" where
  "as_list p = PyList [HIGH p, LOW p]"

subsection \<open>The clock\<close>

text \<open>
  \<open>tick\<close>: \<open>while ticks: self.__ticks += 1; time.sleep(...); ticks -= 1\<close>.
  Every call site passes a positive literal, so the count is a \<open>nat\<close>; the sleep
  only takes real time.
\<close>

fun tick :: "cpu \<Rightarrow> nat \<Rightarrow> cpu" where
  "tick s 0 = s"
| "tick s (Suc n) = tick (s\<lparr>ticks := ticks s + 1\<rparr>) n"

section \<open>The operations\<close>

definition nop :: "cpu \<Rightarrow> cpu" where
  "nop s = tick (s\<lparr>PC := PC s + 1\<rparr>) 4"

text \<open>
  \<open>stop\<close> is \<open>pass\<close>. The run loop handles opcode 0x10 itself before it looks the
  table up, so the table's entry for it is never called from there. \<open>halt\<close>, an
  endless \<open>while True: pass\<close> that no table entry names, is left out.
\<close>

definition stop :: "cpu \<Rightarrow> cpu" where
  "stop s = s"

subsection \<open>Rotates of the accumulator\<close>

definition rlca :: "cpu \<Rightarrow> cpu" where
  "rlca s =
     (let carry = drop_bit 7 (HIGH (AF s) AND 0x80);
          flags = push_bit 4 carry;
          s1 = s\<lparr>AF := (AF s)\<lparr>HIGH := (push_bit 1 (HIGH (AF s)) AND 0xFF) OR carry\<rparr>\<rparr>;
          s2 = s1\<lparr>AF := (AF s1)\<lparr>LOW := flags\<rparr>\<rparr>;
          s3 = s2\<lparr>PC := PC s2 + 1\<rparr>
      in tick s3 4)"

definition rla :: "cpu \<Rightarrow> cpu" where
  "rla s =
     (let carry = drop_bit 4 (LOW (AF s) AND 0x10);
          new_carry = drop_bit 7 (HIGH (AF s) AND 0x80);
          flags = push_bit 4 new_carry;
          s1 = s\<lparr>AF := (AF s)\<lparr>HIGH := (push_bit 1 (HIGH (AF s)) AND 0xFF) OR carry\<rparr>\<rparr>;
          s2 = s1\<lparr>AF := (AF s1)\<lparr>LOW := flags\<rparr>\<rparr>;
          s3 = s2\<lparr>PC := PC s2 + 1\<rparr>
      in tick s3 4)"

definition rrca :: "cpu \<Rightarrow> cpu" where
  "rrca s =
     (let carry = HIGH (AF s) AND 0x01;
          flags = push_bit 4 carry;
          s1 = s\<lparr>AF := (AF s)\<lparr>HIGH := drop_bit 1 (HIGH (AF s)) OR push_bit 7 carry\<rparr>\<rparr>;
          s2 = s1\<lparr>AF := (AF s1)\<lparr>LOW := flags\<rparr>\<rparr>;
          s3 = s2\<lparr>PC := PC s2 + 1\<rparr>
      in tick s3 4)"

definition rra :: "cpu \<Rightarrow> cpu" where
  "rra s =
     (let carry = drop_bit 4 (LOW (AF s) AND 0x10);
          new_carry = HIGH (AF s) AND 0x01;
          flags = push_bit 4 new_carry;
          s1 = s\<lparr>AF := (AF s)\<lparr>HIGH := drop_bit 1 (HIGH (AF s)) OR push_bit 7 carry\<rparr>\<rparr>;
          s2 = s1\<lparr>AF := (AF s1)\<lparr>LOW := flags\<rparr>\<rparr>;
          s3 = s2\<lparr>PC := PC s2 + 1\<rparr>
      in tick s3 4)"

subsection \<open>Relative jumps\<close>

text \<open>
  \<open>self.__PC += self.__game_data[self.__PC + 1]\<close>: the byte is added as the
  non-negative integer that indexing returns; \<open>PC\<close> is not masked and nothing else
  is added to it. When the fetch raises, \<open>PC\<close> has not been assigned.
\<close>

definition jr_8bit_r8 :: "cpu \<Rightarrow> result" where
  "jr_8bit_r8 s =
     (case getitem (game_data s) (PC s + 1) of
        Inl e \<Rightarrow> Inl (e, s)
      | Inr d \<Rightarrow> Inr (tick (s\<lparr>PC := PC s + d\<rparr>) 12))"

definition jr_8bit_nz_r8 :: "cpu \<Rightarrow> result" where
  "jr_8bit_nz_r8 s =
     (if \<not> (LOW (AF s) AND 0x80 \<noteq> 0) then
        (case getitem (game_data s) (PC s + 1) of
           Inl e \<Rightarrow> Inl (e, s)
         | Inr d \<Rightarrow> Inr (tick (s\<lparr>PC := PC s + d\<rparr>) 12))
      else Inr (tick s 8))"

subsection \<open>16-bit addition into HL\<close>

definition add_16bit_hl_bc :: "cpu \<Rightarrow> cpu" where
  "add_16bit_hl_bc s =
     (let val_hl = push_bit 8 (HIGH (HL s)) + LOW (HL s);
          val_bc = push_bit 8 (HIGH (BC s)) + LOW (BC s);
          bit_11_carry = drop_bit 12 ((val_hl AND 0x0FFF) + (val_bc AND 0x0FFF));
          val_hl1 = val_hl + val_bc;
          bit_15_carry = drop_bit 16 val_hl1;
          val_hl2 = val_hl1 AND 0xFFFF;
          s1 = s\<lparr>HL := (HL s)\<lparr>HIGH := drop_bit 8 val_hl2\<rparr>\<rparr>;
          s2 = s1\<lparr>HL := (HL s1)\<lparr>LOW := val_hl2 AND 0xFF\<rparr>\<rparr>;
          flags = (0 OR push_bit 5 bit_11_carry) OR push_bit 4 bit_15_carry;
          s3 = s2\<lparr>AF := (AF s2)\<lparr>LOW := flags\<rparr>\<rparr>;
          s4 = s3\<lparr>PC := PC s3 + 1\<rparr>
      in tick s4 8)"

definition add_16bit_hl_de :: "cpu \<Rightarrow> cpu" where
  "add_16bit_hl_de s =
     (let val_hl = push_bit 8 (HIGH (HL s)) + LOW (HL s);
          val_de = push_bit 8 (HIGH (DE s)) + LOW (DE s);
          bit_11_carry = drop_bit 12 ((val_hl AND 0x0FFF) + (val_de AND 0x0FFF));
          val_hl1 = val_hl + val_de;
          bit_15_carry = drop_bit 16 val_hl1;
          val_hl2 = val_hl1 AND 0xFFFF;
          s1 = s\<lparr>HL := (HL s)\<lparr>HIGH := drop_bit 8 val_hl2\<rparr>\<rparr>;
          s2 = s1\<lparr>HL := (HL s1)\<lparr>LOW := val_hl2 AND 0xFF\<rparr>\<rparr>;
          flags = (0 OR push_bit 5 bit_11_carry) OR push_bit 4 bit_15_carry;
          s3 = s2\<lparr>AF := (AF s2)\<lparr>LOW := flags\<rparr>\<rparr>;
          s4 = s3\<lparr>PC := PC s3 + 1\<rparr>
      in tick s4 8)"

subsection \<open>Loads through a pair address\<close>

text \<open>
  Each of these computes \<open>memory_location\<close> into a local that is never used (the
  transfer is a TODO of the source); the local is kept in the model and dropped
  just as the source drops it.
\<close>

definition ld_8bit_a_bc :: "cpu \<Rightarrow> cpu" where
  "ld_8bit_a_bc s =
     (let memory_location = push_bit 8 (HIGH (BC s)) + LOW (BC s);
          s1 = s\<lparr>PC := PC s + 1\<rparr>
      in tick s1 8)"

definition ld_8bit_a_de :: "cpu \<Rightarrow> cpu" where
  "ld_8bit_a_de s =
     (let memory_location = push_bit 8 (HIGH (DE s)) + LOW (DE s);
          s1 = s\<lparr>PC := PC s + 1\<rparr>
      in tick s1 8)"

definition ld_8bit_bc_a :: "cpu \<Rightarrow> cpu" where
  "ld_8bit_bc_a s =
     (let memory_location = push_bit 8 (HIGH (BC s)) + LOW (BC s);
          s1 = s\<lparr>PC := PC s + 1\<rparr>
      in tick s1 8)"

definition ld_8bit_de_a :: "cpu \<Rightarrow> cpu" where
  "ld_8bit_de_a s =
     (let memory_location = push_bit 8 (HIGH (DE s)) + LOW (DE s);
          s1 = s\<lparr>PC := PC s + 1\<rparr>
      in tick s1 8)"

definition ld_8bit_hli_a :: "cpu \<Rightarrow> cpu" where
  "ld_8bit_hli_a s =
     (let memory_location = push_bit 8 (HIGH (HL s)) + LOW (HL s);
          val = memory_location + 1;
          val1 = val AND 0xFFFF;
          s1 = s\<lparr>HL := (HL s)\<lparr>HIGH := drop_bit 8 val1\<rparr>\<rparr>;
          s2 = s1\<lparr>HL := (HL s1)\<lparr>LOW := val1 AND 0xFF\<rparr>\<rparr>;
          s3 = s2\<lparr>PC := PC s2 + 1\<rparr>
      in tick s3 8)"

subsection \<open>Immediate loads\<close>

definition ld_8bit_b_d8 :: "cpu \<Rightarrow> result" where
  "ld_8bit_b_d8 s =
     (case getitem (game_data s) (PC s + 1) of
        Inl e \<Rightarrow> Inl (e, s)
      | Inr v \<Rightarrow>
          (let s1 = s\<lparr>BC := (BC s)\<lparr>HIGH := v\<rparr>\<rparr>;
               s2 = s1\<lparr>PC := PC s1 + 2\<rparr>
           in Inr (tick s2 8)))"

definition ld_8bit_c_d8 :: "cpu \<Rightarrow> result" where
  "ld_8bit_c_d8 s =
     (case getitem (game_data s) (PC s + 1) of
        Inl e \<Rightarrow> Inl (e, s)
      | Inr v \<Rightarrow>
          (let s1 = s\<lparr>BC := (BC s)\<lparr>LOW := v\<rparr>\<rparr>;
               s2 = s1\<lparr>PC := PC s1 + 2\<rparr>
           in Inr (tick s2 8)))"

definition ld_8bit_d_d8 :: "cpu \<Rightarrow> result" where
  "ld_8bit_d_d8 s =
     (case getitem (game_data s) (PC s + 1) of
        Inl e \<Rightarrow> Inl (e, s)
      | Inr v \<Rightarrow>
          (let s1 = s\<lparr>DE := (DE s)\<lparr>HIGH := v\<rparr>\<rparr>;
               s2 = s1\<lparr>PC := PC s1 + 2\<rparr>
           in Inr (tick s2 8)))"

definition ld_8bit_e_d8 :: "cpu \<Rightarrow> result" where
  "ld_8bit_e_d8 s =
     (case getitem (game_data s) (PC s + 1) of
        Inl e \<Rightarrow> Inl (e, s)
      | Inr v \<Rightarrow>
          (let s1 = s\<lparr>DE := (DE s)\<lparr>LOW := v\<rparr>\<rparr>;
               s2 = s1\<lparr>PC := PC s1 + 2\<rparr>
           in Inr (tick s2 8)))"

definition ld_8bit_h_d8 :: "cpu \<Rightarrow> result" where
  "ld_8bit_h_d8 s =
     (case getitem (game_data s) (PC s + 1) of
        Inl e \<Rightarrow> Inl (e, s)
      | Inr v \<Rightarrow>
          (let s1 = s\<lparr>HL := (HL s)\<lparr>HIGH := v\<rparr>\<rparr>;
               s2 = s1\<lparr>PC := PC s1 + 2\<rparr>
           in Inr (tick s2 8)))"

text \<open>
  The 16-bit loads assign the high half before they fetch the low byte: when the
  second fetch raises, the high half has already been overwritten.
\<close>

definition ld_16bit_bc :: "cpu \<Rightarrow> result" where
  "ld_16bit_bc s =
     (case getitem (game_data s) (PC s + 1) of
        Inl e \<Rightarrow> Inl (e, s)
      | Inr v1 \<Rightarrow>
          (let s1 = s\<lparr>BC := (BC s)\<lparr>HIGH := v1\<rparr>\<rparr> in
           case getitem (game_data s1) (PC s1 + 2) of
             Inl e \<Rightarrow> Inl (e, s1)
           | Inr v2 \<Rightarrow>
               (let s2 = s1\<lparr>BC := (BC s1)\<lparr>LOW := v2\<rparr>\<rparr>;
                    s3 = s2\<lparr>PC := PC s2 + 3\<rparr>
                in Inr (tick s3 12))))"

definition ld_16bit_de :: "cpu \<Rightarrow> result" where
  "ld_16bit_de s =
     (case getitem (game_data s) (PC s + 1) of
        Inl e \<Rightarrow> Inl (e, s)
      | Inr v1 \<Rightarrow>
          (let s1 = s\<lparr>DE := (DE s)\<lparr>HIGH := v1\<rparr>\<rparr> in
           case getitem (game_data s1) (PC s1 + 2) of
             Inl e \<Rightarrow> Inl (e, s1)
           | Inr v2 \<Rightarrow>
               (let s2 = s1\<lparr>DE := (DE s1)\<lparr>LOW := v2\<rparr>\<rparr>;
                    s3 = s2\<lparr>PC := PC s2 + 3\<rparr>
                in Inr (tick s3 12))))"

definition ld_16bit_hl :: "cpu \<Rightarrow> result" where
  "ld_16bit_hl s =
     (case getitem (game_data s) (PC s + 1) of
        Inl e \<Rightarrow> Inl (e, s)
      | Inr v1 \<Rightarrow>
          (let s1 = s\<lparr>HL := (HL s)\<lparr>HIGH := v1\<rparr>\<rparr> in
           case getitem (game_data s1) (PC s1 + 2) of
             Inl e \<Rightarrow> Inl (e, s1)
           | Inr v2 \<Rightarrow>
               (let s2 = s1\<lparr>HL := (HL s1)\<lparr>LOW := v2\<rparr>\<rparr>;
                    s3 = s2\<lparr>PC := PC s2 + 3\<rparr>
                in Inr (tick s3 12))))"

definition ld_16bit_a16_sp :: "cpu \<Rightarrow> result" where
  "ld_16bit_a16_sp s =
     (case getitem (game_data s) (PC s + 1) of
        Inl e \<Rightarrow> Inl (e, s)
      | Inr v1 \<Rightarrow>
          (case getitem (game_data s) (PC s + 2) of
             Inl e \<Rightarrow> Inl (e, s)
           | Inr v2 \<Rightarrow>
               (let memory_location = push_bit 8 v1 + v2;
                    s1 = s\<lparr>PC := PC s + 3\<rparr>
                in Inr (tick s1 20))))"

subsection \<open>8-bit increments and decrements\<close>

text \<open>
  \<open>flags = flags | 0x80 if self.__BC == 0 else flags & 0x7F\<close> parses as
  \<open>(flags | 0x80) if (self.__BC == 0) else (flags & 0x7F)\<close>: the conditional
  expression binds more loosely than \<open>|\<close> and \<open>&\<close>.
\<close>

definition inc_8bit_b :: "cpu \<Rightarrow> cpu" where
  "inc_8bit_b s =
     (let s1 = s\<lparr>BC := (BC s)\<lparr>HIGH := HIGH (BC s) + 1\<rparr>\<rparr>;
          s2 = s1\<lparr>BC := (BC s1)\<lparr>HIGH := HIGH (BC s1) AND 0xFF\<rparr>\<rparr>;
          s3 = s2\<lparr>PC := PC s2 + 1\<rparr>;
          flags = 0x00;
          flags1 = (if py_eq (as_list (BC s3)) (PyInt 0) then flags OR 0x80 else flags AND 0x7F);
          s4 = s3\<lparr>AF := (AF s3)\<lparr>LOW := flags1\<rparr>\<rparr>
      in tick s4 4)"

definition inc_8bit_c :: "cpu \<Rightarrow> cpu" where
  "inc_8bit_c s =
     (let s1 = s\<lparr>BC := (BC s)\<lparr>LOW := LOW (BC s) + 1\<rparr>\<rparr>;
          s2 = s1\<lparr>BC := (BC s1)\<lparr>LOW := LOW (BC s1) AND 0xFF\<rparr>\<rparr>;
          s3 = s2\<lparr>PC := PC s2 + 1\<rparr>;
          flags = 0x00;
          flags1 = (if py_eq (as_list (BC s3)) (PyInt 0) then flags OR 0x80 else flags AND 0x7F);
          s4 = s3\<lparr>AF := (AF s3)\<lparr>LOW := flags1\<rparr>\<rparr>
      in tick s4 4)"

definition inc_8bit_d :: "cpu \<Rightarrow> cpu" where
  "inc_8bit_d s =
     (let s1 = s\<lparr>DE := (DE s)\<lparr>HIGH := HIGH (DE s) + 1\<rparr>\<rparr>;
          s2 = s1\<lparr>DE := (DE s1)\<lparr>HIGH := HIGH (DE s1) AND 0xFF\<rparr>\<rparr>;
          s3 = s2\<lparr>PC := PC s2 + 1\<rparr>;
          flags = 0x00;
          flags1 = (if py_eq (as_list (DE s3)) (PyInt 0) then flags OR 0x80 else flags AND 0x7F);
          s4 = s3\<lparr>AF := (AF s3)\<lparr>LOW := flags1\<rparr>\<rparr>
      in tick s4 4)"

definition inc_8bit_e :: "cpu \<Rightarrow> cpu" where
  "inc_8bit_e s =
     (let s1 = s\<lparr>DE := (DE s)\<lparr>LOW := LOW (DE s) + 1\<rparr>\<rparr>;
          s2 = s1\<lparr>DE := (DE s1)\<lparr>LOW := LOW (DE s1) AND 0xFF\<rparr>\<rparr>;
          s3 = s2\<lparr>PC := PC s2 + 1\<rparr>;
          flags = 0x00;
          flags1 = (if py_eq (as_list (DE s3)) (PyInt 0) then flags OR 0x80 else flags AND 0x7F);
          s4 = s3\<lparr>AF := (AF s3)\<lparr>LOW := flags1\<rparr>\<rparr>
      in tick s4 4)"

definition inc_8bit_h :: "cpu \<Rightarrow> cpu" where
  "inc_8bit_h s =
     (let s1 = s\<lparr>HL := (HL s)\<lparr>HIGH := HIGH (HL s) + 1\<rparr>\<rparr>;
          s2 = s1\<lparr>HL := (HL s1)\<lparr>HIGH := HIGH (HL s1) AND 0xFF\<rparr>\<rparr>;
          s3 = s2\<lparr>PC := PC s2 + 1\<rparr>;
          flags = 0x00;
          flags1 = (if py_eq (as_list (HL s3)) (PyInt 0) then flags OR 0x80 else flags AND 0x7F);
          s4 = s3\<lparr>AF := (AF s3)\<lparr>LOW := flags1\<rparr>\<rparr>
      in tick s4 4)"

definition dec_8bit_b :: "cpu \<Rightarrow> cpu" where
  "dec_8bit_b s =
     (let s1 = s\<lparr>BC := (BC s)\<lparr>HIGH := HIGH (BC s) - 1\<rparr>\<rparr>;
          s2 = s1\<lparr>BC := (BC s1)\<lparr>HIGH := HIGH (BC s1) AND 0xFF\<rparr>\<rparr>;
          s3 = s2\<lparr>PC := PC s2 + 1\<rparr>;
          flags = 0x40;
          flags1 = (if py_eq (as_list (BC s3)) (PyInt 0) then flags OR 0x80 else flags AND 0x7F);
          s4 = s3\<lparr>AF := (AF s3)\<lparr>LOW := flags1\<rparr>\<rparr>
      in tick s4 4)"

definition dec_8bit_c :: "cpu \<Rightarrow> cpu" where
  "dec_8bit_c s =
     (let s1 = s\<lparr>BC := (BC s)\<lparr>LOW := LOW (BC s) - 1\<rparr>\<rparr>;
          s2 = s1\<lparr>BC := (BC s1)\<lparr>LOW := LOW (BC s1) AND 0xFF\<rparr>\<rparr>;
          s3 = s2\<lparr>PC := PC s2 + 1\<rparr>;
          flags = 0x40;
          flags1 = (if py_eq (as_list (BC s3)) (PyInt 0) then flags OR 0x80 else flags AND 0x7F);
          s4 = s3\<lparr>AF := (AF s3)\<lparr>LOW := flags1\<rparr>\<rparr>
      in tick s4 4)"

definition dec_8bit_d :: "cpu \<Rightarrow> cpu" where
  "dec_8bit_d s =
     (let s1 = s\<lparr>DE := (DE s)\<lparr>HIGH := HIGH (DE s) - 1\<rparr>\<rparr>;
          s2 = s1\<lparr>DE := (DE s1)\<lparr>HIGH := HIGH (DE s1) AND 0xFF\<rparr>\<rparr>;
          s3 = s2\<lparr>PC := PC s2 + 1\<rparr>;
          flags = 0x40;
          flags1 = (if py_eq (as_list (DE s3)) (PyInt 0) then flags OR 0x80 else flags AND 0x7F);
          s4 = s3\<lparr>AF := (AF s3)\<lparr>LOW := flags1\<rparr>\<rparr>
      in tick s4 4)"

definition dec_8bit_e :: "cpu \<Rightarrow> cpu" where
  "dec_8bit_e s =
     (let s1 = s\<lparr>DE := (DE s)\<lparr>LOW := LOW (DE s) - 1\<rparr>\<rparr>;
          s2 = s1\<lparr>DE := (DE s1)\<lparr>LOW := LOW (DE s1) AND 0xFF\<rparr>\<rparr>;
          s3 = s2\<lparr>PC := PC s2 + 1\<rparr>;
          flags = 0x40;
          flags1 = (if py_eq (as_list (DE s3)) (PyInt 0) then flags OR 0x80 else flags AND 0x7F);
          s4 = s3\<lparr>AF := (AF s3)\<lparr>LOW := flags1\<rparr>\<rparr>
      in tick s4 4)"

definition dec_8bit_h :: "cpu \<Rightarrow> cpu" where
  "dec_8bit_h s =
     (let s1 = s\<lparr>HL := (HL s)\<lparr>HIGH := HIGH (HL s) - 1\<rparr>\<rparr>;
          s2 = s1\<lparr>HL := (HL s1)\<lparr>HIGH := HIGH (HL s1) AND 0xFF\<rparr>\<rparr>;
          s3 = s2\<lparr>PC := PC s2 + 1\<rparr>;
          flags = 0x40;
          flags1 = (if py_eq (as_list (HL s3)) (PyInt 0) then flags OR 0x80 else flags AND 0x7F);
          s4 = s3\<lparr>AF := (AF s3)\<lparr>LOW := flags1\<rparr>\<rparr>
      in tick s4 4)"

subsection \<open>16-bit increments and decrements\<close>

definition inc_16bit_bc :: "cpu \<Rightarrow> cpu" where
  "inc_16bit_bc s =
     (let val = push_bit 8 (HIGH (BC s)) + LOW (BC s) + 1;
          val1 = val AND 0xFFFF;
          s1 = s\<lparr>BC := (BC s)\<lparr>HIGH := drop_bit 8 val1\<rparr>\<rparr>;
          s2 = s1\<lparr>BC := (BC s1)\<lparr>LOW := val1 AND 0xFF\<rparr>\<rparr>;
          s3 = s2\<lparr>PC := PC s2 + 1\<rparr>
      in tick s3 8)"

definition inc_16bit_de :: "cpu \<Rightarrow> cpu" where
  "inc_16bit_de s =
     (let val = push_bit 8 (HIGH (DE s)) + LOW (DE s) + 1;
          val1 = val AND 0xFFFF;
          s1 = s\<lparr>DE := (DE s)\<lparr>HIGH := drop_bit 8 val1\<rparr>\<rparr>;
          s2 = s1\<lparr>DE := (DE s1)\<lparr>LOW := val1 AND 0xFF\<rparr>\<rparr>;
          s3 = s2\<lparr>PC := PC s2 + 1\<rparr>
      in tick s3 8)"

definition inc_16bit_hl :: "cpu \<Rightarrow> cpu" where
  "inc_16bit_hl s =
     (let val = push_bit 8 (HIGH (HL s)) + LOW (HL s) + 1;
          val1 = val AND 0xFFFF;
          s1 = s\<lparr>HL := (HL s)\<lparr>HIGH := drop_bit 8 val1\<rparr>\<rparr>;
          s2 = s1\<lparr>HL := (HL s1)\<lparr>LOW := val1 AND 0xFF\<rparr>\<rparr>;
          s3 = s2\<lparr>PC := PC s2 + 1\<rparr>
      in tick s3 8)"

definition dec_16bit_bc :: "cpu \<Rightarrow> cpu" where
  "dec_16bit_bc s =
     (let val = push_bit 8 (HIGH (BC s)) + LOW (BC s) - 1;
          val1 = val AND 0xFFFF;
          s1 = s\<lparr>BC := (BC s)\<lparr>HIGH := drop_bit 8 val1\<rparr>\<rparr>;
          s2 = s1\<lparr>BC := (BC s1)\<lparr>LOW := val1 AND 0xFF\<rparr>\<rparr>;
          s3 = s2\<lparr>PC := PC s2 + 1\<rparr>
      in tick s3 8)"

definition dec_16bit_de :: "cpu \<Rightarrow> cpu" where
  "dec_16bit_de s =
     (let val = push_bit 8 (HIGH (DE s)) + LOW (DE s) - 1;
          val1 = val AND 0xFFFF;
          s1 = s\<lparr>DE := (DE s)\<lparr>HIGH := drop_bit 8 val1\<rparr>\<rparr>;
          s2 = s1\<lparr>DE := (DE s1)\<lparr>LOW := val1 AND 0xFF\<rparr>\<rparr>;
          s3 = s2\<lparr>PC := PC s2 + 1\<rparr>
      in tick s3 8)"

section \<open>Dispatch and the run loop\<close>

text \<open>
  A method that cannot raise is entered in the table through \<open>returns\<close>: its call
  always comes back with the new state.
\<close>

definition returns :: "(cpu \<Rightarrow> cpu) \<Rightarrow> cpu \<Rightarrow> result" where
  "returns f s = Inr (f s)"

definition opcode_table :: "(int \<times> (cpu \<Rightarrow> result)) list" where
  "opcode_table =
     [(0x00, returns nop),
      (0x01, ld_16bit_bc),
      (0x02, returns ld_8bit_bc_a),
      (0x03, returns inc_16bit_bc),
      (0x04, returns inc_8bit_b),
      (0x05, returns dec_8bit_b),
      (0x06, ld_8bit_b_d8),
      (0x07, returns rlca),
      (0x08, ld_16bit_a16_sp),
      (0x09, returns add_16bit_hl_bc),
      (0x0A, returns ld_8bit_a_bc),
      (0x0B, returns dec_16bit_bc),
      (0x0C, returns inc_8bit_c),
      (0x0D, returns dec_8bit_c),
      (0x0E, ld_8bit_c_d8),
      (0x0F, returns rrca),
      (0x10, returns stop),
      (0x11, ld_16bit_de),
      (0x12, returns ld_8bit_de_a),
      (0x13, returns inc_16bit_de),
      (0x14, returns inc_8bit_d),
      (0x15, returns dec_8bit_d),
      (0x16, ld_8bit_d_d8),
      (0x17, returns rla),
      (0x18, jr_8bit_r8),
      (0x19, returns add_16bit_hl_de),
      (0x1A, returns ld_8bit_a_de),
      (0x1B, returns dec_16bit_de),
      (0x1C, returns inc_8bit_e),
      (0x1D, returns dec_8bit_e),
      (0x1E, ld_8bit_e_d8),
      (0x1F, returns rra),
      (0x20, jr_8bit_nz_r8),
      (0x21, ld_16bit_hl),
      (0x22, returns ld_8bit_hli_a),
      (0x23, returns inc_16bit_hl),
      (0x24, returns inc_8bit_h),
      (0x25, returns dec_8bit_h),
      (0x26, ld_8bit_h_d8)]"

text \<open>
  \<open>main_loop\<close>: \<open>while True\<close> with a single \<open>break\<close>. The loop may run forever, so
  the model is a partial function: \<open>None\<close> is a run that never returns,
  \<open>Some (Inr s)\<close> a run that left the loop in state \<open>s\<close>, \<open>Some (Inl (e, s))\<close>
  a run that an exception ended in state \<open>s\<close>.
\<close>

partial_function (option) main_loop :: "cpu \<Rightarrow> result option" where
  "main_loop s =
     (case getitem (game_data s) (PC s) of
        Inl e \<Rightarrow> Some (Inl (e, s))
      | Inr op_code \<Rightarrow>
          if op_code = 0x10 then Some (Inr (tick (s\<lparr>PC := PC s + 2\<rparr>) 4))
          else
            (case map_of opcode_table op_code of
               None \<Rightarrow> Some (Inl (KeyError op_code, s))
             | Some operation \<Rightarrow>
                 (case operation s of
                    Inl err \<Rightarrow> Some (Inl err)
                  | Inr s' \<Rightarrow> main_loop s')))"

section \<open>Register ranges\<close>

text \<open>
  The ranges that the masks of the source are there to keep: both halves of a pair
  in [0, 0xFF]; for the whole state, every pair so, SP in [0, 0xFFFF] and PC not
  negative. \<open>masking_invariant\<close> adds the bound PC \<le> 0xFFFF of a 16-bit program
  counter. \<open>stays_in_range s r\<close> says of the outcome \<open>r\<close> of an operation started in
  \<open>s\<close>, returned or raised, that its state has its registers in range and a PC not
  below that of \<open>s\<close>.
\<close>

definition halves_in_range :: "regpair \<Rightarrow> bool" where
  "halves_in_range p = (0 \<le> HIGH p \<and> HIGH p \<le> 0xFF \<and> 0 \<le> LOW p \<and> LOW p \<le> 0xFF)"

definition registers_in_range :: "cpu \<Rightarrow> bool" where
  "registers_in_range s =
     (halves_in_range (AF s) \<and> halves_in_range (BC s) \<and> halves_in_range (DE s)
      \<and> halves_in_range (HL s) \<and> 0 \<le> SP s \<and> SP s \<le> 0xFFFF \<and> 0 \<le> PC s)"

definition masking_invariant :: "cpu \<Rightarrow> bool" where
  "masking_invariant s = (registers_in_range s \<and> PC s \<le> 0xFFFF)"

definition stays_in_range :: "cpu \<Rightarrow> result \<Rightarrow> bool" where
  "stays_in_range s r =
     (case r of
        Inl (e, s') \<Rightarrow> registers_in_range s' \<and> PC s \<le> PC s'
      | Inr s' \<Rightarrow> registers_in_range s' \<and> PC s \<le> PC s')"

section \<open>Basic facts\<close>

lemma tick_eq: "tick s n = s\<lparr>ticks := ticks s + int n\<rparr>"
  by (induction n arbitrary: s) simp_all

lemma and_255: "(x::int) AND 0xFF = x mod 256"
proof -
  have "(0xFF::int) = mask 8" by (simp add: mask_eq_exp_minus_1)
  then show ?thesis by (simp only: take_bit_eq_mask [symmetric] take_bit_eq_mod) simp
qed

lemma and_65535: "(x::int) AND 0xFFFF = x mod 65536"
proof -
  have "(0xFFFF::int) = mask 16" by (simp add: mask_eq_exp_minus_1)
  then show ?thesis by (simp only: take_bit_eq_mask [symmetric] take_bit_eq_mod) simp
qed

lemmas inc_8bit_defs =
  inc_8bit_b_def inc_8bit_c_def inc_8bit_d_def inc_8bit_e_def inc_8bit_h_def

lemmas dec_8bit_defs =
  dec_8bit_b_def dec_8bit_c_def dec_8bit_d_def dec_8bit_e_def dec_8bit_h_def

text \<open>
  A run that meets \<open>jr nz, r8\<close> (opcode 0x20) with Z set has no result: the
  operation leaves PC on its own opcode, so the loop fetches it again for ever.
\<close>

lemma main_loop_jr_nz_no_result:
  "main_loop s = Some r \<Longrightarrow>
     \<not> (getitem (game_data s) (PC s) = Inr 0x20 \<and> LOW (AF s) AND 0x80 \<noteq> 0)"
proof (induction rule: main_loop.raw_induct [rotated 1, consumes 1, case_names step])
  case (step main_loop' s r)
  show ?case
  proof
    assume st: "getitem (game_data s) (PC s) = Inr 0x20 \<and> LOW (AF s) AND 0x80 \<noteq> 0"
    then have "main_loop' (tick s 8) = Some r"
      using step(2) by (simp add: opcode_table_def jr_8bit_nz_r8_def)
    from step(1) [OF this] st show False by (simp add: tick_eq)
  qed
qed

lemma main_loop_jr_nz_diverges:
  assumes "getitem (game_data s) (PC s) = Inr 0x20" and "LOW (AF s) AND 0x80 \<noteq> 0"
  shows "main_loop s = None"
  using assms main_loop_jr_nz_no_result [of s] by (cases "main_loop s") auto

subsection \<open>Bytes, carries and ranges\<close>

lemmas in_range_defs = registers_in_range_def halves_in_range_def

lemma and_4095: "(x::int) AND 0x0FFF = x mod 4096"
proof -
  have "(0x0FFF::int) = mask 12" by (simp add: mask_eq_exp_minus_1)
  then show ?thesis by (simp only: take_bit_eq_mask [symmetric] take_bit_eq_mod) simp
qed

lemma getitem_range: "getitem xs i = Inr v \<Longrightarrow> 0 \<le> v \<and> v \<le> 0xFF"
  using uint_lt2p [of "xs ! nat (if i < 0 then int (length xs) + i else i)"]
  by (auto simp: getitem_def Let_def split: if_splits)

lemma or_byte:
  fixes x y :: int
  assumes "0 \<le> x" "x \<le> 0xFF" "0 \<le> y" "y \<le> 0xFF"
  shows "0 \<le> x OR y \<and> x OR y \<le> 0xFF"
proof -
  have "x OR y < 2 ^ 8" using assms by (intro OR_upper) simp_all
  with assms show ?thesis by simp
qed

lemma byte_bounds:
  "0 \<le> (x::int) mod 256" "x mod 256 \<le> 255"
  "0 \<le> x mod 65536 div 256" "x mod 65536 div 256 \<le> 255"
proof -
  have "0 \<le> x mod 256" "x mod 256 < 256" by simp_all
  then show "0 \<le> x mod 256" "x mod 256 \<le> 255" by simp_all
  have "0 \<le> x mod 65536" "x mod 65536 < 65536" by simp_all
  then show "0 \<le> x mod 65536 div 256" "x mod 65536 div 256 \<le> 255" by arith+
qed

lemma carry7: "0 \<le> drop_bit 7 ((x::int) AND 0x80) \<and> drop_bit 7 (x AND 0x80) \<le> 1"
proof -
  define y where "y = x AND 0x80"
  have "y \<le> 0x80" "0 \<le> y" by (simp_all add: y_def)
  moreover have "drop_bit 7 y = y div 128" by (simp add: drop_bit_eq_div)
  ultimately have "0 \<le> drop_bit 7 y \<and> drop_bit 7 y \<le> 1" by arith
  then show ?thesis by (simp only: y_def)
qed

lemma carry4: "0 \<le> drop_bit 4 ((x::int) AND 0x10) \<and> drop_bit 4 (x AND 0x10) \<le> 1"
proof -
  define y where "y = x AND 0x10"
  have "y \<le> 0x10" "0 \<le> y" by (simp_all add: y_def)
  moreover have "drop_bit 4 y = y div 16" by (simp add: drop_bit_eq_div)
  ultimately have "0 \<le> drop_bit 4 y \<and> drop_bit 4 y \<le> 1" by arith
  then show ?thesis by (simp only: y_def)
qed

lemma carry0: "0 \<le> (x::int) AND 0x01 \<and> x AND 0x01 \<le> 1"
proof -
  have "x AND 0x01 \<le> 0x01" "0 \<le> x AND 0x01" by simp_all
  then show ?thesis by simp
qed

text \<open>Rotates\<close>

lemma rotl_byte:
  fixes a c :: int
  assumes "0 \<le> c" "c \<le> 1"
  shows "0 \<le> (push_bit 1 a AND 0xFF) OR c \<and> (push_bit 1 a AND 0xFF) OR c \<le> 0xFF"
proof (intro or_byte)
  show "0 \<le> push_bit 1 a AND 0xFF" "push_bit 1 a AND 0xFF \<le> 0xFF"
    unfolding and_255 by (rule byte_bounds)+
  show "0 \<le> c" "c \<le> 0xFF" using assms by simp_all
qed

lemma rotr_byte:
  fixes a c :: int
  assumes "0 \<le> a" "a \<le> 0xFF" "0 \<le> c" "c \<le> 1"
  shows "0 \<le> drop_bit 1 a OR push_bit 7 c \<and> drop_bit 1 a OR push_bit 7 c \<le> 0xFF"
proof (intro or_byte)
  show "0 \<le> drop_bit 1 a" "drop_bit 1 a \<le> 0xFF"
    using assms unfolding drop_bit_eq_div by simp_all
  show "0 \<le> push_bit 7 c" "push_bit 7 c \<le> 0xFF"
    using assms unfolding push_bit_eq_mult by simp_all
qed

lemma flag_byte:
  fixes c :: int
  assumes "0 \<le> c" "c \<le> 1"
  shows "0 \<le> push_bit 4 c \<and> push_bit 4 c \<le> 0xFF"
  using assms unfolding push_bit_eq_mult by simp

lemma rlca_range:
  assumes "registers_in_range s"
  shows "registers_in_range (rlca s) \<and> PC s \<le> PC (rlca s)"
proof -
  define c where "c = drop_bit 7 (HIGH (AF s) AND 0x80)"
  define a where "a = (push_bit 1 (HIGH (AF s)) AND 0xFF) OR c"
  define f where "f = push_bit 4 c"
  have c: "0 \<le> c" "c \<le> 1" using carry7 [of "HIGH (AF s)"] by (simp_all add: c_def)
  have a: "0 \<le> a \<and> a \<le> 0xFF" unfolding a_def using c by (rule rotl_byte)
  have f: "0 \<le> f \<and> f \<le> 0xFF" unfolding f_def using c by (rule flag_byte)
  have "rlca s = s\<lparr>AF := \<lparr>HIGH = a, LOW = f\<rparr>, PC := PC s + 1, ticks := ticks s + 4\<rparr>"
    unfolding rlca_def Let_def tick_eq a_def c_def f_def by simp
  with assms a f show ?thesis by (simp add: in_range_defs)
qed

lemma rla_range:
  assumes "registers_in_range s"
  shows "registers_in_range (rla s) \<and> PC s \<le> PC (rla s)"
proof -
  define c where "c = drop_bit 4 (LOW (AF s) AND 0x10)"
  define n where "n = drop_bit 7 (HIGH (AF s) AND 0x80)"
  define a where "a = (push_bit 1 (HIGH (AF s)) AND 0xFF) OR c"
  define f where "f = push_bit 4 n"
  have c: "0 \<le> c" "c \<le> 1" using carry4 [of "LOW (AF s)"] by (simp_all add: c_def)
  have n: "0 \<le> n" "n \<le> 1" using carry7 [of "HIGH (AF s)"] by (simp_all add: n_def)
  have a: "0 \<le> a \<and> a \<le> 0xFF" unfolding a_def using c by (rule rotl_byte)
  have f: "0 \<le> f \<and> f \<le> 0xFF" unfolding f_def using n by (rule flag_byte)
  have "rla s = s\<lparr>AF := \<lparr>HIGH = a, LOW = f\<rparr>, PC := PC s + 1, ticks := ticks s + 4\<rparr>"
    unfolding rla_def Let_def tick_eq a_def c_def n_def f_def by simp
  with assms a f show ?thesis by (simp add: in_range_defs)
qed

lemma rrca_range:
  assumes "registers_in_range s"
  shows "registers_in_range (rrca s) \<and> PC s \<le> PC (rrca s)"
proof -
  define c where "c = HIGH (AF s) AND 0x01"
  define a where "a = drop_bit 1 (HIGH (AF s)) OR push_bit 7 c"
  define f where "f = push_bit 4 c"
  have c: "0 \<le> c" "c \<le> 1" using carry0 [of "HIGH (AF s)"] by (simp_all add: c_def)
  have h: "0 \<le> HIGH (AF s)" "HIGH (AF s) \<le> 0xFF" using assms by (simp_all add: in_range_defs)
  have a: "0 \<le> a \<and> a \<le> 0xFF" unfolding a_def using h c by (rule rotr_byte)
  have f: "0 \<le> f \<and> f \<le> 0xFF" unfolding f_def using c by (rule flag_byte)
  have "rrca s = s\<lparr>AF := \<lparr>HIGH = a, LOW = f\<rparr>, PC := PC s + 1, ticks := ticks s + 4\<rparr>"
    unfolding rrca_def Let_def tick_eq a_def c_def f_def by simp
  with assms a f show ?thesis by (simp add: in_range_defs)
qed

lemma rra_range:
  assumes "registers_in_range s"
  shows "registers_in_range (rra s) \<and> PC s \<le> PC (rra s)"
proof -
  define c where "c = drop_bit 4 (LOW (AF s) AND 0x10)"
  define n where "n = HIGH (AF s) AND 0x01"
  define a where "a = drop_bit 1 (HIGH (AF s)) OR push_bit 7 c"
  define f where "f = push_bit 4 n"
  have c: "0 \<le> c" "c \<le> 1" using carry4 [of "LOW (AF s)"] by (simp_all add: c_def)
  have n: "0 \<le> n" "n \<le> 1" using carry0 [of "HIGH (AF s)"] by (simp_all add: n_def)
  have h: "0 \<le> HIGH (AF s)" "HIGH (AF s) \<le> 0xFF" using assms by (simp_all add: in_range_defs)
  have a: "0 \<le> a \<and> a \<le> 0xFF" unfolding a_def using h c by (rule rotr_byte)
  have f: "0 \<le> f \<and> f \<le> 0xFF" unfolding f_def using n by (rule flag_byte)
  have "rra s = s\<lparr>AF := \<lparr>HIGH = a, LOW = f\<rparr>, PC := PC s + 1, ticks := ticks s + 4\<rparr>"
    unfolding rra_def Let_def tick_eq a_def c_def n_def f_def by simp
  with assms a f show ?thesis by (simp add: in_range_defs)
qed

text \<open>Operations that touch no register but PC and the clock\<close>

lemma plain_range:
  assumes "registers_in_range s"
  shows "registers_in_range (nop s) \<and> PC s \<le> PC (nop s)"
    and "registers_in_range (stop s) \<and> PC s \<le> PC (stop s)"
    and "registers_in_range (ld_8bit_a_bc s) \<and> PC s \<le> PC (ld_8bit_a_bc s)"
    and "registers_in_range (ld_8bit_a_de s) \<and> PC s \<le> PC (ld_8bit_a_de s)"
    and "registers_in_range (ld_8bit_bc_a s) \<and> PC s \<le> PC (ld_8bit_bc_a s)"
    and "registers_in_range (ld_8bit_de_a s) \<and> PC s \<le> PC (ld_8bit_de_a s)"
  using assms
  by (simp_all add: nop_def stop_def ld_8bit_a_bc_def ld_8bit_a_de_def ld_8bit_bc_a_def
      ld_8bit_de_a_def Let_def tick_eq in_range_defs)

text \<open>8-bit increments and decrements\<close>

lemma inc_8bit_range:
  assumes "registers_in_range s"
  shows "registers_in_range (inc_8bit_b s) \<and> PC s \<le> PC (inc_8bit_b s)"
    and "registers_in_range (inc_8bit_c s) \<and> PC s \<le> PC (inc_8bit_c s)"
    and "registers_in_range (inc_8bit_d s) \<and> PC s \<le> PC (inc_8bit_d s)"
    and "registers_in_range (inc_8bit_e s) \<and> PC s \<le> PC (inc_8bit_e s)"
    and "registers_in_range (inc_8bit_h s) \<and> PC s \<le> PC (inc_8bit_h s)"
  using assms
  by (simp_all add: inc_8bit_defs Let_def tick_eq as_list_def in_range_defs and_255
      byte_bounds)

lemma dec_8bit_range:
  assumes "registers_in_range s"
  shows "registers_in_range (dec_8bit_b s) \<and> PC s \<le> PC (dec_8bit_b s)"
    and "registers_in_range (dec_8bit_c s) \<and> PC s \<le> PC (dec_8bit_c s)"
    and "registers_in_range (dec_8bit_d s) \<and> PC s \<le> PC (dec_8bit_d s)"
    and "registers_in_range (dec_8bit_e s) \<and> PC s \<le> PC (dec_8bit_e s)"
    and "registers_in_range (dec_8bit_h s) \<and> PC s \<le> PC (dec_8bit_h s)"
  using assms
  by (simp_all add: dec_8bit_defs Let_def tick_eq as_list_def in_range_defs and_255
      byte_bounds)

text \<open>16-bit increments and decrements, and the increment of \<open>ld (hl+),a\<close>\<close>

lemmas inc_dec_16bit_defs =
  inc_16bit_bc_def inc_16bit_de_def inc_16bit_hl_def dec_16bit_bc_def dec_16bit_de_def

lemma inc_dec_16bit_range:
  assumes "registers_in_range s"
  shows "registers_in_range (inc_16bit_bc s) \<and> PC s \<le> PC (inc_16bit_bc s)"
    and "registers_in_range (inc_16bit_de s) \<and> PC s \<le> PC (inc_16bit_de s)"
    and "registers_in_range (inc_16bit_hl s) \<and> PC s \<le> PC (inc_16bit_hl s)"
    and "registers_in_range (dec_16bit_bc s) \<and> PC s \<le> PC (dec_16bit_bc s)"
    and "registers_in_range (dec_16bit_de s) \<and> PC s \<le> PC (dec_16bit_de s)"
    and "registers_in_range (ld_8bit_hli_a s) \<and> PC s \<le> PC (ld_8bit_hli_a s)"
  using assms
  by (simp_all add: inc_dec_16bit_defs ld_8bit_hli_a_def Let_def tick_eq in_range_defs
      and_255 and_65535 drop_bit_eq_div byte_bounds)

text \<open>16-bit addition\<close>

lemma add_16bit_arith:
  fixes h l h' l' :: int
  assumes "0 \<le> h" "h \<le> 0xFF" "0 \<le> l" "l \<le> 0xFF"
    and "0 \<le> h'" "h' \<le> 0xFF" "0 \<le> l'" "l' \<le> 0xFF"
  defines "x \<equiv> push_bit 8 h + l" and "y \<equiv> push_bit 8 h' + l'"
  shows "x = 256 * h + l" and "y = 256 * h' + l'"
    and "drop_bit 12 ((x AND 0x0FFF) + (y AND 0x0FFF))
           = (if 0x1000 \<le> x mod 0x1000 + y mod 0x1000 then 1 else 0)"
    and "drop_bit 16 (x + y) = (if 0x10000 \<le> x + y then 1 else 0)"
proof -
  show x: "x = 256 * h + l" and y: "y = 256 * h' + l'"
    by (simp_all add: x_def y_def push_bit_eq_mult)
  have "0 \<le> x mod 4096" "x mod 4096 < 4096" "0 \<le> y mod 4096" "y mod 4096 < 4096"
    by simp_all
  then have "(x mod 4096 + y mod 4096) div 4096
           = (if 4096 \<le> x mod 4096 + y mod 4096 then 1 else 0)"
    by (simp add: div_pos_pos_trivial) arith
  then show "drop_bit 12 ((x AND 0x0FFF) + (y AND 0x0FFF))
           = (if 0x1000 \<le> x mod 0x1000 + y mod 0x1000 then 1 else 0)"
    by (simp add: and_4095 drop_bit_eq_div)
  have "0 \<le> x" "x \<le> 65535" "0 \<le> y" "y \<le> 65535" using assms(1-8) by (simp_all add: x y)
  then have "(x + y) div 65536 = (if 65536 \<le> x + y then 1 else 0)"
    by (simp add: div_pos_pos_trivial) arith
  then show "drop_bit 16 (x + y) = (if 0x10000 \<le> x + y then 1 else 0)"
    by (simp add: drop_bit_eq_div)
qed

lemma add_flags_bits:
  fixes f :: int
  assumes "f = (0 OR push_bit 5 (if h then 1 else 0)) OR push_bit 4 (if c then 1 else 0)"
  shows "f = (if h then 0x20 else 0x00) + (if c then 0x10 else 0x00)"
    and "(f AND 0x20 \<noteq> 0) = h" and "(f AND 0x10 \<noteq> 0) = c"
    and "f AND 0x80 = 0" and "f AND 0x40 = 0"
    and "0 \<le> f \<and> f \<le> 0xFF"
  using assms by (cases h; cases c; simp)+

lemma add_16bit_hl_bc_eq:
  assumes "halves_in_range (HL s)" and "halves_in_range (BC s)"
  defines "hl \<equiv> 256 * HIGH (HL s) + LOW (HL s)"
    and "rr \<equiv> 256 * HIGH (BC s) + LOW (BC s)"
  shows "add_16bit_hl_bc s =
     s\<lparr>HL := \<lparr>HIGH = (hl + rr) mod 0x10000 div 256, LOW = (hl + rr) mod 0x10000 mod 256\<rparr>,
       AF := (AF s)\<lparr>LOW := (0 OR push_bit 5 (if 0x1000 \<le> hl mod 0x1000 + rr mod 0x1000 then 1 else 0))
                            OR push_bit 4 (if 0x10000 \<le> hl + rr then 1 else 0)\<rparr>,
       PC := PC s + 1, ticks := ticks s + 8\<rparr>"
proof -
  define x where "x = push_bit 8 (HIGH (HL s)) + LOW (HL s)"
  define y where "y = push_bit 8 (HIGH (BC s)) + LOW (BC s)"
  define b11 where "b11 = drop_bit 12 ((x AND 0x0FFF) + (y AND 0x0FFF))"
  define b15 where "b15 = drop_bit 16 (x + y)"
  have r: "0 \<le> HIGH (HL s)" "HIGH (HL s) \<le> 0xFF" "0 \<le> LOW (HL s)" "LOW (HL s) \<le> 0xFF"
    "0 \<le> HIGH (BC s)" "HIGH (BC s) \<le> 0xFF" "0 \<le> LOW (BC s)" "LOW (BC s) \<le> 0xFF"
    using assms(1,2) by (simp_all add: halves_in_range_def)
  note ar = add_16bit_arith [OF r, folded x_def y_def]
  have x: "x = hl" and y: "y = rr" using ar(1,2) by (simp_all add: hl_def rr_def)
  have "add_16bit_hl_bc s =
     s\<lparr>HL := \<lparr>HIGH = drop_bit 8 ((x + y) AND 0xFFFF), LOW = ((x + y) AND 0xFFFF) AND 0xFF\<rparr>,
       AF := (AF s)\<lparr>LOW := (0 OR push_bit 5 b11) OR push_bit 4 b15\<rparr>,
       PC := PC s + 1, ticks := ticks s + 8\<rparr>"
    by (simp add: add_16bit_hl_bc_def Let_def tick_eq x_def y_def b11_def b15_def)
  also have "b11 = (if 0x1000 \<le> hl mod 0x1000 + rr mod 0x1000 then 1 else 0)"
    using ar(3) unfolding b11_def x y .
  also have "b15 = (if 0x10000 \<le> hl + rr then 1 else 0)"
    using ar(4) unfolding b15_def x y .
  finally show ?thesis
    unfolding x y and_65535 and_255 drop_bit_eq_div by simp
qed

lemma add_16bit_hl_de_eq:
  assumes "halves_in_range (HL s)" and "halves_in_range (DE s)"
  defines "hl \<equiv> 256 * HIGH (HL s) + LOW (HL s)"
    and "rr \<equiv> 256 * HIGH (DE s) + LOW (DE s)"
  shows "add_16bit_hl_de s =
     s\<lparr>HL := \<lparr>HIGH = (hl + rr) mod 0x10000 div 256, LOW = (hl + rr) mod 0x10000 mod 256\<rparr>,
       AF := (AF s)\<lparr>LOW := (0 OR push_bit 5 (if 0x1000 \<le> hl mod 0x1000 + rr mod 0x1000 then 1 else 0))
                            OR push_bit 4 (if 0x10000 \<le> hl + rr then 1 else 0)\<rparr>,
       PC := PC s + 1, ticks := ticks s + 8\<rparr>"
proof -
  define x where "x = push_bit 8 (HIGH (HL s)) + LOW (HL s)"
  define y where "y = push_bit 8 (HIGH (DE s)) + LOW (DE s)"
  define b11 where "b11 = drop_bit 12 ((x AND 0x0FFF) + (y AND 0x0FFF))"
  define b15 where "b15 = drop_bit 16 (x + y)"
  have r: "0 \<le> HIGH (HL s)" "HIGH (HL s) \<le> 0xFF" "0 \<le> LOW (HL s)" "LOW (HL s) \<le> 0xFF"
    "0 \<le> HIGH (DE s)" "HIGH (DE s) \<le> 0xFF" "0 \<le> LOW (DE s)" "LOW (DE s) \<le> 0xFF"
    using assms(1,2) by (simp_all add: halves_in_range_def)
  note ar = add_16bit_arith [OF r, folded x_def y_def]
  have x: "x = hl" and y: "y = rr" using ar(1,2) by (simp_all add: hl_def rr_def)
  have "add_16bit_hl_de s =
     s\<lparr>HL := \<lparr>HIGH = drop_bit 8 ((x + y) AND 0xFFFF), LOW = ((x + y) AND 0xFFFF) AND 0xFF\<rparr>,
       AF := (AF s)\<lparr>LOW := (0 OR push_bit 5 b11) OR push_bit 4 b15\<rparr>,
       PC := PC s + 1, ticks := ticks s + 8\<rparr>"
    by (simp add: add_16bit_hl_de_def Let_def tick_eq x_def y_def b11_def b15_def)
  also have "b11 = (if 0x1000 \<le> hl mod 0x1000 + rr mod 0x1000 then 1 else 0)"
    using ar(3) unfolding b11_def x y .
  also have "b15 = (if 0x10000 \<le> hl + rr then 1 else 0)"
    using ar(4) unfolding b15_def x y .
  finally show ?thesis
    unfolding x y and_65535 and_255 drop_bit_eq_div by simp
qed

lemma add_16bit_result:
  fixes v :: int
  assumes "s' = s\<lparr>HL := \<lparr>HIGH = v div 256, LOW = v mod 256\<rparr>,
       AF := (AF s)\<lparr>LOW := (0 OR push_bit 5 (if h then 1 else 0))
                            OR push_bit 4 (if c then 1 else 0)\<rparr>,
       PC := PC s + 1, ticks := ticks s + 8\<rparr>"
  shows "s' = s\<lparr>HL := \<lparr>HIGH = v div 256, LOW = v mod 256\<rparr>,
       AF := (AF s)\<lparr>LOW := (if h then 0x20 else 0x00) + (if c then 0x10 else 0x00)\<rparr>,
       PC := PC s + 1, ticks := ticks s + 8\<rparr>"
    and "256 * HIGH (HL s') + LOW (HL s') = v"
    and "(LOW (AF s') AND 0x20 \<noteq> 0) = h" and "(LOW (AF s') AND 0x10 \<noteq> 0) = c"
    and "LOW (AF s') AND 0x80 = 0" and "LOW (AF s') AND 0x40 = 0"
    and "0 \<le> LOW (AF s') \<and> LOW (AF s') \<le> 0xFF"
  using add_flags_bits [OF refl, of h c] by (simp_all add: assms)

lemma add_16bit_range:
  assumes "registers_in_range s"
  shows "registers_in_range (add_16bit_hl_bc s) \<and> PC s \<le> PC (add_16bit_hl_bc s)"
    and "registers_in_range (add_16bit_hl_de s) \<and> PC s \<le> PC (add_16bit_hl_de s)"
proof -
  have r: "halves_in_range (HL s)" "halves_in_range (BC s)" "halves_in_range (DE s)"
    using assms by (simp_all add: registers_in_range_def)
  note bc = add_16bit_result(1) [OF add_16bit_hl_bc_eq [OF r(1,2)]]
  note de = add_16bit_result(1) [OF add_16bit_hl_de_eq [OF r(1,3)]]
  show "registers_in_range (add_16bit_hl_bc s) \<and> PC s \<le> PC (add_16bit_hl_bc s)"
    using assms by (simp add: bc in_range_defs byte_bounds)
  show "registers_in_range (add_16bit_hl_de s) \<and> PC s \<le> PC (add_16bit_hl_de s)"
    using assms by (simp add: de in_range_defs byte_bounds)
qed

text \<open>Operations that fetch operands\<close>

lemma jr_range:
  assumes "registers_in_range s"
  shows "stays_in_range s (jr_8bit_r8 s)" and "stays_in_range s (jr_8bit_nz_r8 s)"
  using assms
  by (auto simp: stays_in_range_def jr_8bit_r8_def jr_8bit_nz_r8_def tick_eq in_range_defs
      split: sum.splits dest: getitem_range)

lemmas ld_8bit_d8_defs =
  ld_8bit_b_d8_def ld_8bit_c_d8_def ld_8bit_d_d8_def ld_8bit_e_d8_def ld_8bit_h_d8_def

lemma ld_8bit_d8_range:
  assumes "registers_in_range s"
  shows "stays_in_range s (ld_8bit_b_d8 s)" and "stays_in_range s (ld_8bit_c_d8 s)"
    and "stays_in_range s (ld_8bit_d_d8 s)" and "stays_in_range s (ld_8bit_e_d8 s)"
    and "stays_in_range s (ld_8bit_h_d8 s)"
  using assms
  by (auto simp: stays_in_range_def ld_8bit_d8_defs Let_def tick_eq in_range_defs
      split: sum.splits dest: getitem_range)

lemma ld_16bit_range:
  assumes "registers_in_range s"
  shows "stays_in_range s (ld_16bit_bc s)" and "stays_in_range s (ld_16bit_de s)"
    and "stays_in_range s (ld_16bit_hl s)" and "stays_in_range s (ld_16bit_a16_sp s)"
  using assms
  by (auto simp: stays_in_range_def ld_16bit_bc_def ld_16bit_de_def ld_16bit_hl_def
      ld_16bit_a16_sp_def Let_def tick_eq in_range_defs
      split: sum.splits dest: getitem_range)

lemma returns_range:
  "registers_in_range (f s) \<and> PC s \<le> PC (f s) \<Longrightarrow> stays_in_range s (returns f s)"
  by (simp add: stays_in_range_def returns_def)

lemma opcode_table_range:
  assumes "registers_in_range s"
  shows "\<forall>(k, operation) \<in> set opcode_table. stays_in_range s (operation s)"
  unfolding opcode_table_def
  using assms
  by (simp add: returns_range plain_range rlca_range rla_range rrca_range rra_range
      inc_8bit_range dec_8bit_range inc_dec_16bit_range add_16bit_range jr_range
      ld_8bit_d8_range ld_16bit_range)

lemma main_loop_range:
  "main_loop s = Some r \<Longrightarrow> registers_in_range s \<longrightarrow> stays_in_range s r"
proof (induction rule: main_loop.raw_induct [rotated 1, consumes 1, case_names step])
  case (step main_loop' s r)
  show ?case
  proof
    assume inv: "registers_in_range s"
    show "stays_in_range s r"
    proof (cases "getitem (game_data s) (PC s)")
      case (Inl e)
      with step(2) inv show ?thesis by (auto simp: stays_in_range_def)
    next
      case (Inr op_code)
      show ?thesis
      proof (cases "op_code = 0x10")
        case True
        with Inr step(2) inv show ?thesis
          by (auto simp: stays_in_range_def tick_eq in_range_defs)
      next
        case False
        show ?thesis
        proof (cases "map_of opcode_table op_code")
          case None
          with Inr False step(2) inv show ?thesis by (auto simp: stays_in_range_def)
        next
          case (Some operation)
          then have "(op_code, operation) \<in> set opcode_table" by (rule map_of_SomeD)
          with opcode_table_range [OF inv] have st: "stays_in_range s (operation s)" by auto
          show ?thesis
          proof (cases "operation s")
            case (Inl err)
            with Inr False Some step(2) st show ?thesis by simp
          next
            case (Inr s')
            with \<open>getitem (game_data s) (PC s) = Inr op_code\<close> False Some step(2)
            have "main_loop' s' = Some r" by simp
            from step(1) [OF this] st Inr show ?thesis
              by (auto simp: stays_in_range_def split: sum.splits)
          qed
        qed
      qed
    qed
  qed
qed

lemma reset_in_range: "registers_in_range (GameBoyColorCPU data)"
  by (simp add: GameBoyColorCPU_def in_range_defs)

lemma nop_funpow: "(nop ^^ n) s = s\<lparr>PC := PC s + int n, ticks := ticks s + 4 * int n\<rparr>"
  by (induction n) (simp_all add: nop_def tick_eq)

subsection \<open>Fetches past the end\<close>

lemma getitem_past_end: "int (length xs) \<le> i \<Longrightarrow> getitem xs i = Inl IndexError"
  by (simp add: getitem_def Let_def)

lemma getitem_error: "getitem xs i = Inl e \<Longrightarrow> e = IndexError"
  by (simp add: getitem_def Let_def split: if_splits)

subsection \<open>Iterated increments and decrements\<close>

text \<open>
  A register that each call of \<open>f\<close> advances by one modulo \<open>m\<close> is back at its value after
  \<open>m\<close> calls; a pair is determined by its 16-bit value once its low half is a byte.
\<close>

lemma funpow_wrap_inc:
  fixes g :: "'a \<Rightarrow> int"
  assumes "\<And>t. g (f t) = (g t + 1) mod m"
  shows "g ((f ^^ Suc n) s) = (g s + int (Suc n)) mod m"
proof (induction n)
  case 0
  show ?case by (simp add: assms)
next
  case (Suc n)
  have "g ((f ^^ Suc (Suc n)) s) = (g ((f ^^ Suc n) s) + 1) mod m"
    by (simp add: assms)
  also have "\<dots> = ((g s + int (Suc n)) mod m + 1) mod m" by (simp only: Suc.IH)
  also have "\<dots> = (g s + int (Suc (Suc n))) mod m"
    by (simp add: mod_add_left_eq add.assoc)
  finally show ?case .
qed

lemma funpow_wrap_dec:
  fixes g :: "'a \<Rightarrow> int"
  assumes "\<And>t. g (f t) = (g t - 1) mod m"
  shows "g ((f ^^ Suc n) s) = (g s - int (Suc n)) mod m"
proof (induction n)
  case 0
  show ?case by (simp add: assms)
next
  case (Suc n)
  have "g ((f ^^ Suc (Suc n)) s) = (g ((f ^^ Suc n) s) - 1) mod m"
    by (simp add: assms)
  also have "\<dots> = ((g s - int (Suc n)) mod m - 1) mod m" by (simp only: Suc.IH)
  also have "\<dots> = (g s - int (Suc (Suc n))) mod m"
    by (simp add: mod_diff_left_eq algebra_simps)
  finally show ?case .
qed

lemma funpow_wrap_inc_full:
  fixes g :: "'a \<Rightarrow> int"
  assumes "\<And>t. g (f t) = (g t + 1) mod int m" and "0 < m" and "0 \<le> g s" and "g s < int m"
  shows "g ((f ^^ m) s) = g s"
proof -
  from \<open>0 < m\<close> obtain n where m: "m = Suc n" by (cases m) auto
  have "g ((f ^^ m) s) = (g s + int m) mod int m"
    unfolding m using assms(1) [unfolded m] by (rule funpow_wrap_inc)
  also have "\<dots> = g s" using assms(3,4) by simp
  finally show ?thesis .
qed

lemma funpow_wrap_dec_full:
  fixes g :: "'a \<Rightarrow> int"
  assumes "\<And>t. g (f t) = (g t - 1) mod int m" and "0 < m" and "0 \<le> g s" and "g s < int m"
  shows "g ((f ^^ m) s) = g s"
proof -
  from \<open>0 < m\<close> obtain n where m: "m = Suc n" by (cases m) auto
  have "g ((f ^^ m) s) = (g s - int m) mod int m"
    unfolding m using assms(1) [unfolded m] by (rule funpow_wrap_dec)
  also have "\<dots> = g s" using assms(3,4) by simp
  finally show ?thesis .
qed

lemma inc_8bit_step:
  "HIGH (BC (inc_8bit_b t)) = (HIGH (BC t) + 1) mod int 256"
  "LOW (BC (inc_8bit_c t)) = (LOW (BC t) + 1) mod int 256"
  "HIGH (DE (inc_8bit_d t)) = (HIGH (DE t) + 1) mod int 256"
  "LOW (DE (inc_8bit_e t)) = (LOW (DE t) + 1) mod int 256"
  "HIGH (HL (inc_8bit_h t)) = (HIGH (HL t) + 1) mod int 256"
  by (simp_all add: inc_8bit_defs Let_def tick_eq and_255)

lemma dec_8bit_step:
  "HIGH (BC (dec_8bit_b t)) = (HIGH (BC t) - 1) mod int 256"
  "LOW (BC (dec_8bit_c t)) = (LOW (BC t) - 1) mod int 256"
  "HIGH (DE (dec_8bit_d t)) = (HIGH (DE t) - 1) mod int 256"
  "LOW (DE (dec_8bit_e t)) = (LOW (DE t) - 1) mod int 256"
  "HIGH (HL (dec_8bit_h t)) = (HIGH (HL t) - 1) mod int 256"
  by (simp_all add: dec_8bit_defs Let_def tick_eq and_255)

lemma inc_16bit_step:
  "256 * HIGH (BC (inc_16bit_bc t)) + LOW (BC (inc_16bit_bc t))
     = (256 * HIGH (BC t) + LOW (BC t) + 1) mod int 65536"
  "256 * HIGH (DE (inc_16bit_de t)) + LOW (DE (inc_16bit_de t))
     = (256 * HIGH (DE t) + LOW (DE t) + 1) mod int 65536"
  "256 * HIGH (HL (inc_16bit_hl t)) + LOW (HL (inc_16bit_hl t))
     = (256 * HIGH (HL t) + LOW (HL t) + 1) mod int 65536"
  by (simp_all add: inc_dec_16bit_defs Let_def tick_eq and_255 and_65535 push_bit_eq_mult
      drop_bit_eq_div mult.commute)

lemma dec_16bit_step:
  "256 * HIGH (BC (dec_16bit_bc t)) + LOW (BC (dec_16bit_bc t))
     = (256 * HIGH (BC t) + LOW (BC t) - 1) mod int 65536"
  "256 * HIGH (DE (dec_16bit_de t)) + LOW (DE (dec_16bit_de t))
     = (256 * HIGH (DE t) + LOW (DE t) - 1) mod int 65536"
  by (simp_all add: inc_dec_16bit_defs Let_def tick_eq and_255 and_65535 push_bit_eq_mult
      drop_bit_eq_div mult.commute)

lemma inc_dec_16bit_low:
  "0 \<le> LOW (BC (inc_16bit_bc t)) \<and> LOW (BC (inc_16bit_bc t)) \<le> 0xFF"
  "0 \<le> LOW (DE (inc_16bit_de t)) \<and> LOW (DE (inc_16bit_de t)) \<le> 0xFF"
  "0 \<le> LOW (HL (inc_16bit_hl t)) \<and> LOW (HL (inc_16bit_hl t)) \<le> 0xFF"
  "0 \<le> LOW (BC (dec_16bit_bc t)) \<and> LOW (BC (dec_16bit_bc t)) \<le> 0xFF"
  "0 \<le> LOW (DE (dec_16bit_de t)) \<and> LOW (DE (dec_16bit_de t)) \<le> 0xFF"
  by (simp_all add: inc_dec_16bit_defs Let_def tick_eq and_255 byte_bounds)

lemma pair_value_inj:
  fixes p q :: regpair
  assumes "256 * HIGH p + LOW p = 256 * HIGH q + LOW q"
    and "0 \<le> LOW p \<and> LOW p \<le> 0xFF" and "0 \<le> LOW q \<and> LOW q \<le> 0xFF"
  shows "p = q"
proof -
  have "(256 * HIGH p + LOW p) mod 256 = LOW p" "(256 * HIGH q + LOW q) mod 256 = LOW q"
    using assms(2,3) by simp_all
  with assms(1) have l: "LOW p = LOW q" by simp
  with assms(1) have "HIGH p = HIGH q" by simp
  with l show ?thesis by simp
qed

lemma pair_value_range:
  "halves_in_range p \<Longrightarrow> 0 \<le> 256 * HIGH p + LOW p \<and> 256 * HIGH p + LOW p < int 65536"
  by (simp add: halves_in_range_def)

lemma funpow_Suc_low:
  fixes P :: "cpu \<Rightarrow> regpair" and f :: "cpu \<Rightarrow> cpu"
  assumes "\<And>t. 0 \<le> LOW (P (f t)) \<and> LOW (P (f t)) \<le> 0xFF" and "0 < m"
  shows "0 \<le> LOW (P ((f ^^ m) s)) \<and> LOW (P ((f ^^ m) s)) \<le> 0xFF"
proof -
  from \<open>0 < m\<close> obtain n where m: "m = Suc n" by (cases m) auto
  have "(f ^^ m) s = f ((f ^^ n) s)" unfolding m by simp
  then show ?thesis using assms(1) [of "(f ^^ n) s"] by simp
qed

lemma funpow_wrap_pair_inc:
  fixes P :: "cpu \<Rightarrow> regpair"
  assumes step: "\<And>t. 256 * HIGH (P (f t)) + LOW (P (f t))
                     = (256 * HIGH (P t) + LOW (P t) + 1) mod int 65536"
    and low: "\<And>t. 0 \<le> LOW (P (f t)) \<and> LOW (P (f t)) \<le> 0xFF"
    and range: "halves_in_range (P s)"
  shows "P ((f ^^ 65536) s) = P s"
proof (rule pair_value_inj)
  show "256 * HIGH (P ((f ^^ 65536) s)) + LOW (P ((f ^^ 65536) s)) = 256 * HIGH (P s) + LOW (P s)"
    using pair_value_range [OF range]
    by (intro funpow_wrap_inc_full [where g = "\<lambda>t. 256 * HIGH (P t) + LOW (P t)"] step) simp_all
  show "0 \<le> LOW (P ((f ^^ 65536) s)) \<and> LOW (P ((f ^^ 65536) s)) \<le> 0xFF"
    by (rule funpow_Suc_low [where P = P and f = f]) (rule low, simp)
  show "0 \<le> LOW (P s) \<and> LOW (P s) \<le> 0xFF" using range by (simp add: halves_in_range_def)
qed

lemma funpow_wrap_pair_dec:
  fixes P :: "cpu \<Rightarrow> regpair"
  assumes step: "\<And>t. 256 * HIGH (P (f t)) + LOW (P (f t))
                     = (256 * HIGH (P t) + LOW (P t) - 1) mod int 65536"
    and low: "\<And>t. 0 \<le> LOW (P (f t)) \<and> LOW (P (f t)) \<le> 0xFF"
    and range: "halves_in_range (P s)"
  shows "P ((f ^^ 65536) s) = P s"
proof (rule pair_value_inj)
  show "256 * HIGH (P ((f ^^ 65536) s)) + LOW (P ((f ^^ 65536) s)) = 256 * HIGH (P s) + LOW (P s)"
    using pair_value_range [OF range]
    by (intro funpow_wrap_dec_full [where g = "\<lambda>t. 256 * HIGH (P t) + LOW (P t)"] step) simp_all
  show "0 \<le> LOW (P ((f ^^ 65536) s)) \<and> LOW (P ((f ^^ 65536) s)) \<le> 0xFF"
    by (rule funpow_Suc_low [where P = P and f = f]) (rule low, simp)
  show "0 \<le> LOW (P s) \<and> LOW (P s) \<le> 0xFF" using range by (simp add: halves_in_range_def)
qed

section \<open>The stop opcode ends the run loop\<close>

text \<open>
  C1. Whatever the program memory and the state, when the byte at the program
  counter is 0x10 the run loop returns at once: the state it returns is the
  starting state with PC advanced by 2 and the cycle counter advanced by 4, every
  other register and the memory being as before.
\<close>

theorem main_loop_stop:
  assumes "getitem (game_data s) (PC s) = Inr 0x10"
  shows "main_loop s = Some (Inr (s\<lparr>PC := PC s + 2, ticks := ticks s + 4\<rparr>))"
  using assms by (subst main_loop.simps) (simp add: tick_eq)

theorem main_loop_stop_witness:
  "getitem (game_data (GameBoyColorCPU [0x10, 0x00])) (PC (GameBoyColorCPU [0x10, 0x00])) = Inr 0x10
   \<and> main_loop (GameBoyColorCPU [0x10, 0x00])
       = Some (Inr ((GameBoyColorCPU [0x10, 0x00])\<lparr>PC := 2, ticks := 4\<rparr>))"
proof -
  have h: "getitem (game_data (GameBoyColorCPU [0x10, 0x00])) (PC (GameBoyColorCPU [0x10, 0x00])) = Inr 0x10"
    by (simp add: getitem_def GameBoyColorCPU_def)
  have "main_loop (GameBoyColorCPU [0x10, 0x00])
       = Some (Inr ((GameBoyColorCPU [0x10, 0x00])\<lparr>PC := 2, ticks := 4\<rparr>))"
    using main_loop_stop [OF h] by (simp add: GameBoyColorCPU_def)
  with h show ?thesis by simp
qed

section \<open>The zero flag of the 8-bit increments and decrements\<close>

text \<open>
  C2. After an 8-bit increment or decrement the Z flag (bit 7 of F) should be set
  exactly when the register pair holding the affected half is zero, N (bit 6)
  being cleared by an increment and set by a decrement. The source tests
  \<open>self.__BC == 0\<close>, a list against an integer, which is never true, so Z is never
  set. Run from reset, the program \<open>ld b, 0xFF; inc b; stop\<close> ends with BC = 0 and
  F = 0x00, and \<open>ld b, 0x01; dec b; stop\<close> ends with BC = 0 and F = 0x40: the pair
  is zero and Z is clear in both.
\<close>

theorem inc_dec_8bit_zero_pair_Z_clear:
  "main_loop (GameBoyColorCPU [0x06, 0xFF, 0x04, 0x10, 0x00])
     = Some (Inr ((GameBoyColorCPU [0x06, 0xFF, 0x04, 0x10, 0x00])
         \<lparr>AF := \<lparr>HIGH = 0x00, LOW = 0x00\<rparr>, BC := \<lparr>HIGH = 0x00, LOW = 0x00\<rparr>,
          PC := 5, ticks := 16\<rparr>))
   \<and> main_loop (GameBoyColorCPU [0x06, 0x01, 0x05, 0x10, 0x00])
     = Some (Inr ((GameBoyColorCPU [0x06, 0x01, 0x05, 0x10, 0x00])
         \<lparr>AF := \<lparr>HIGH = 0x00, LOW = 0x40\<rparr>, BC := \<lparr>HIGH = 0x00, LOW = 0x00\<rparr>,
          PC := 5, ticks := 16\<rparr>))"
  by (simp add: main_loop.simps getitem_def GameBoyColorCPU_def opcode_table_def
      ld_8bit_b_d8_def returns_def inc_8bit_b_def dec_8bit_b_def as_list_def Let_def tick_eq)

section \<open>Relative jumps\<close>

text \<open>
  C3. \<open>jr nz, r8\<close> with Z set should leave PC to the instruction-length advance
  alone and charge 8 cycles; \<open>jr r8\<close> sets PC to PC plus the displacement byte and
  charges 12 cycles. The source's not-taken branch only ticks: with Z set and
  PC = 0x100 on the opcode 0x20, the operation returns with PC still 0x100 (not
  0x102) and 8 more cycles, and the run loop started there never returns. The
  unconditional jump at PC = 0x100 with displacement 0x05 gives PC = 0x105 and 12
  cycles.
\<close>

theorem jr_nz_not_taken_keeps_PC:
  "jr_8bit_nz_r8 ((GameBoyColorCPU (replicate 0x100 0x00 @ [0x20, 0x05]))
       \<lparr>AF := \<lparr>HIGH = 0x00, LOW = 0x80\<rparr>, PC := 0x100\<rparr>)
     = Inr ((GameBoyColorCPU (replicate 0x100 0x00 @ [0x20, 0x05]))
       \<lparr>AF := \<lparr>HIGH = 0x00, LOW = 0x80\<rparr>, PC := 0x100, ticks := 8\<rparr>)
   \<and> main_loop ((GameBoyColorCPU (replicate 0x100 0x00 @ [0x20, 0x05]))
       \<lparr>AF := \<lparr>HIGH = 0x00, LOW = 0x80\<rparr>, PC := 0x100\<rparr>) = None
   \<and> jr_8bit_r8 ((GameBoyColorCPU (replicate 0x100 0x00 @ [0x18, 0x05]))\<lparr>PC := 0x100\<rparr>)
     = Inr ((GameBoyColorCPU (replicate 0x100 0x00 @ [0x18, 0x05]))\<lparr>PC := 0x105, ticks := 12\<rparr>)"
proof -
  have "jr_8bit_nz_r8 ((GameBoyColorCPU (replicate 0x100 0x00 @ [0x20, 0x05]))
       \<lparr>AF := \<lparr>HIGH = 0x00, LOW = 0x80\<rparr>, PC := 0x100\<rparr>)
     = Inr ((GameBoyColorCPU (replicate 0x100 0x00 @ [0x20, 0x05]))
       \<lparr>AF := \<lparr>HIGH = 0x00, LOW = 0x80\<rparr>, PC := 0x100, ticks := 8\<rparr>)"
    by (simp add: jr_8bit_nz_r8_def tick_eq GameBoyColorCPU_def)
  moreover have "main_loop ((GameBoyColorCPU (replicate 0x100 0x00 @ [0x20, 0x05]))
       \<lparr>AF := \<lparr>HIGH = 0x00, LOW = 0x80\<rparr>, PC := 0x100\<rparr>) = None"
    by (rule main_loop_jr_nz_diverges)
       (simp_all add: getitem_def nth_append GameBoyColorCPU_def)
  moreover have "jr_8bit_r8 ((GameBoyColorCPU (replicate 0x100 0x00 @ [0x18, 0x05]))\<lparr>PC := 0x100\<rparr>)
     = Inr ((GameBoyColorCPU (replicate 0x100 0x00 @ [0x18, 0x05]))\<lparr>PC := 0x105, ticks := 12\<rparr>)"
    by (simp add: jr_8bit_r8_def getitem_def nth_append tick_eq GameBoyColorCPU_def)
  ultimately show ?thesis by simp
qed

section \<open>The carry flag of the 8-bit increments and decrements\<close>

text \<open>
  C7, as stated: the C flag (bit 4 of F) is the same after an 8-bit increment or
  decrement as before. It is not: \<open>inc b\<close> on a state whose F is 0x10 leaves a
  flags byte with bit 4 clear.
\<close>

theorem inc_8bit_b_carry_not_kept:
  "LOW (AF (inc_8bit_b ((GameBoyColorCPU [])\<lparr>AF := \<lparr>HIGH = 0x00, LOW = 0x10\<rparr>\<rparr>))) AND 0x10
     \<noteq> LOW (AF ((GameBoyColorCPU [])\<lparr>AF := \<lparr>HIGH = 0x00, LOW = 0x10\<rparr>\<rparr>)) AND 0x10"
  by (simp add: inc_8bit_b_def Let_def tick_eq GameBoyColorCPU_def)

text \<open>
  C7, amended: after every 8-bit increment and decrement the C flag (bit 4 of F)
  is clear, whatever the flags were before. (The flags byte is built anew from a
  literal; bit 4 is clear in it whichever way the zero test goes.)
\<close>

theorem inc_dec_8bit_clear_carry:
  "LOW (AF (inc_8bit_b s)) AND 0x10 = 0
   \<and> LOW (AF (inc_8bit_c s)) AND 0x10 = 0
   \<and> LOW (AF (inc_8bit_d s)) AND 0x10 = 0
   \<and> LOW (AF (inc_8bit_e s)) AND 0x10 = 0
   \<and> LOW (AF (inc_8bit_h s)) AND 0x10 = 0
   \<and> LOW (AF (dec_8bit_b s)) AND 0x10 = 0
   \<and> LOW (AF (dec_8bit_c s)) AND 0x10 = 0
   \<and> LOW (AF (dec_8bit_d s)) AND 0x10 = 0
   \<and> LOW (AF (dec_8bit_e s)) AND 0x10 = 0
   \<and> LOW (AF (dec_8bit_h s)) AND 0x10 = 0"
  by (simp add: inc_8bit_defs dec_8bit_defs Let_def tick_eq)

section \<open>16-bit immediate loads\<close>

text \<open>
  C8. For \<open>ld bc, d16\<close>, \<open>ld de, d16\<close> and \<open>ld hl, d16\<close>: when the two bytes after
  the opcode can be fetched, the first goes to the pair's high half and the second
  to its low half, PC advances by 3 and 12 cycles are charged; nothing else
  changes.
\<close>

theorem ld_16bit_d16:
  assumes "getitem (game_data s) (PC s + 1) = Inr v1"
    and "getitem (game_data s) (PC s + 2) = Inr v2"
  shows "ld_16bit_bc s
           = Inr (s\<lparr>BC := \<lparr>HIGH = v1, LOW = v2\<rparr>, PC := PC s + 3, ticks := ticks s + 12\<rparr>)
       \<and> ld_16bit_de s
           = Inr (s\<lparr>DE := \<lparr>HIGH = v1, LOW = v2\<rparr>, PC := PC s + 3, ticks := ticks s + 12\<rparr>)
       \<and> ld_16bit_hl s
           = Inr (s\<lparr>HL := \<lparr>HIGH = v1, LOW = v2\<rparr>, PC := PC s + 3, ticks := ticks s + 12\<rparr>)"
  using assms by (simp add: ld_16bit_bc_def ld_16bit_de_def ld_16bit_hl_def Let_def tick_eq)

text \<open>\<open>ld bc, d16\<close> followed by the bytes 0x12, 0x34, from reset: B = 0x12, C = 0x34.\<close>

theorem ld_16bit_d16_witness:
  "ld_16bit_bc (GameBoyColorCPU [0x01, 0x12, 0x34])
     = Inr ((GameBoyColorCPU [0x01, 0x12, 0x34])
         \<lparr>BC := \<lparr>HIGH = 0x12, LOW = 0x34\<rparr>, PC := 3, ticks := 12\<rparr>)"
proof -
  have h1: "getitem (game_data (GameBoyColorCPU [0x01, 0x12, 0x34]))
              (PC (GameBoyColorCPU [0x01, 0x12, 0x34]) + 1) = Inr 0x12"
    by (simp add: getitem_def GameBoyColorCPU_def)
  have h2: "getitem (game_data (GameBoyColorCPU [0x01, 0x12, 0x34]))
              (PC (GameBoyColorCPU [0x01, 0x12, 0x34]) + 2) = Inr 0x34"
    by (simp add: getitem_def GameBoyColorCPU_def)
  from ld_16bit_d16 [OF h1 h2] show ?thesis by (simp add: GameBoyColorCPU_def)
qed

section \<open>Loads through a pair address\<close>

text \<open>
  C10. \<open>ld a,(bc)\<close>, \<open>ld a,(de)\<close>, \<open>ld (bc),a\<close> and \<open>ld (de),a\<close> change nothing but
  PC (plus 1) and the cycle counter (plus 8): A, the flags, every pair, SP and the
  memory are as before. \<open>ld (hl+),a\<close> does the same and also replaces HL: the new
  pair, with its low half in [0, 0xFF], holds the old pair's value plus 1 modulo
  0x10000.
\<close>

theorem ld_8bit_indirect_frame:
  "ld_8bit_a_bc s = s\<lparr>PC := PC s + 1, ticks := ticks s + 8\<rparr>
   \<and> ld_8bit_a_de s = s\<lparr>PC := PC s + 1, ticks := ticks s + 8\<rparr>
   \<and> ld_8bit_bc_a s = s\<lparr>PC := PC s + 1, ticks := ticks s + 8\<rparr>
   \<and> ld_8bit_de_a s = s\<lparr>PC := PC s + 1, ticks := ticks s + 8\<rparr>
   \<and> ld_8bit_hli_a s
       = s\<lparr>HL := HL (ld_8bit_hli_a s), PC := PC s + 1, ticks := ticks s + 8\<rparr>
   \<and> 256 * HIGH (HL (ld_8bit_hli_a s)) + LOW (HL (ld_8bit_hli_a s))
       = (256 * HIGH (HL s) + LOW (HL s) + 1) mod 0x10000
   \<and> 0 \<le> LOW (HL (ld_8bit_hli_a s)) \<and> LOW (HL (ld_8bit_hli_a s)) \<le> 0xFF"
proof -
  have "ld_8bit_a_bc s = s\<lparr>PC := PC s + 1, ticks := ticks s + 8\<rparr>"
    and "ld_8bit_a_de s = s\<lparr>PC := PC s + 1, ticks := ticks s + 8\<rparr>"
    and "ld_8bit_bc_a s = s\<lparr>PC := PC s + 1, ticks := ticks s + 8\<rparr>"
    and "ld_8bit_de_a s = s\<lparr>PC := PC s + 1, ticks := ticks s + 8\<rparr>"
    by (simp_all add: ld_8bit_a_bc_def ld_8bit_a_de_def ld_8bit_bc_a_def ld_8bit_de_a_def
        Let_def tick_eq)
  moreover have "ld_8bit_hli_a s
       = s\<lparr>HL := HL (ld_8bit_hli_a s), PC := PC s + 1, ticks := ticks s + 8\<rparr>"
    by (simp add: ld_8bit_hli_a_def Let_def tick_eq)
  moreover have "256 * HIGH (HL (ld_8bit_hli_a s)) + LOW (HL (ld_8bit_hli_a s))
       = (256 * HIGH (HL s) + LOW (HL s) + 1) mod 0x10000"
    by (simp add: ld_8bit_hli_a_def Let_def tick_eq and_255 and_65535 push_bit_eq_mult
        drop_bit_eq_div mult.commute)
  moreover have "0 \<le> LOW (HL (ld_8bit_hli_a s)) \<and> LOW (HL (ld_8bit_hli_a s)) \<le> 0xFF"
    by (simp add: ld_8bit_hli_a_def Let_def tick_eq and_255)
  ultimately show ?thesis by simp
qed

section \<open>16-bit addition into HL\<close>

text \<open>
  C4. With the halves of HL and of the added pair in [0, 0xFF], \<open>add hl, bc\<close> and
  \<open>add hl, de\<close> store the sum modulo 0x10000 in HL (high half the quotient by 256,
  low half the remainder), set H (bit 5 of F) exactly when the low 12 bits of the
  operands add up to 0x1000 or more, set C (bit 4) exactly when the full sum
  reaches 0x10000, clear Z (bit 7) and N (bit 6), the rest of F being zero,
  advance PC by 1 and charge 8 cycles; nothing else changes.
\<close>

theorem add_16bit_hl_rr:
  assumes "halves_in_range (HL s)" and "halves_in_range (BC s)" and "halves_in_range (DE s)"
  shows "(let hl = 256 * HIGH (HL s) + LOW (HL s); rr = 256 * HIGH (BC s) + LOW (BC s);
              h = (0x1000 \<le> hl mod 0x1000 + rr mod 0x1000); c = (0x10000 \<le> hl + rr);
              s' = add_16bit_hl_bc s
          in s' = s\<lparr>HL := \<lparr>HIGH = (hl + rr) mod 0x10000 div 256,
                           LOW = (hl + rr) mod 0x10000 mod 256\<rparr>,
                    AF := (AF s)\<lparr>LOW := (if h then 0x20 else 0x00) + (if c then 0x10 else 0x00)\<rparr>,
                    PC := PC s + 1, ticks := ticks s + 8\<rparr>
             \<and> 256 * HIGH (HL s') + LOW (HL s') = (hl + rr) mod 0x10000
             \<and> (LOW (AF s') AND 0x20 \<noteq> 0) = h \<and> (LOW (AF s') AND 0x10 \<noteq> 0) = c
             \<and> LOW (AF s') AND 0x80 = 0 \<and> LOW (AF s') AND 0x40 = 0)
       \<and> (let hl = 256 * HIGH (HL s) + LOW (HL s); rr = 256 * HIGH (DE s) + LOW (DE s);
              h = (0x1000 \<le> hl mod 0x1000 + rr mod 0x1000); c = (0x10000 \<le> hl + rr);
              s' = add_16bit_hl_de s
          in s' = s\<lparr>HL := \<lparr>HIGH = (hl + rr) mod 0x10000 div 256,
                           LOW = (hl + rr) mod 0x10000 mod 256\<rparr>,
                    AF := (AF s)\<lparr>LOW := (if h then 0x20 else 0x00) + (if c then 0x10 else 0x00)\<rparr>,
                    PC := PC s + 1, ticks := ticks s + 8\<rparr>
             \<and> 256 * HIGH (HL s') + LOW (HL s') = (hl + rr) mod 0x10000
             \<and> (LOW (AF s') AND 0x20 \<noteq> 0) = h \<and> (LOW (AF s') AND 0x10 \<noteq> 0) = c
             \<and> LOW (AF s') AND 0x80 = 0 \<and> LOW (AF s') AND 0x40 = 0)"
proof -
  note bc = add_16bit_result [OF add_16bit_hl_bc_eq [OF assms(1,2)]]
  note de = add_16bit_result [OF add_16bit_hl_de_eq [OF assms(1,3)]]
  show ?thesis
    unfolding Let_def
    using bc(1-6) de(1-6) by (intro conjI) assumption+
qed

text \<open>
  HL = 0x0FFF plus BC = 0x0001 gives HL = 0x1000 and F = 0x20 (H set, C clear);
  HL = 0xFFFF plus DE = 0x0001 gives HL = 0x0000 and F = 0x30 (H and C set).
\<close>

theorem add_16bit_hl_rr_witness:
  "add_16bit_hl_bc ((GameBoyColorCPU [])\<lparr>HL := \<lparr>HIGH = 0x0F, LOW = 0xFF\<rparr>, BC := \<lparr>HIGH = 0x00, LOW = 0x01\<rparr>\<rparr>)
     = (GameBoyColorCPU [])\<lparr>HL := \<lparr>HIGH = 0x10, LOW = 0x00\<rparr>, BC := \<lparr>HIGH = 0x00, LOW = 0x01\<rparr>,
         AF := \<lparr>HIGH = 0x00, LOW = 0x20\<rparr>, PC := 1, ticks := 8\<rparr>
   \<and> add_16bit_hl_de ((GameBoyColorCPU [])\<lparr>HL := \<lparr>HIGH = 0xFF, LOW = 0xFF\<rparr>, DE := \<lparr>HIGH = 0x00, LOW = 0x01\<rparr>\<rparr>)
     = (GameBoyColorCPU [])\<lparr>HL := \<lparr>HIGH = 0x00, LOW = 0x00\<rparr>, DE := \<lparr>HIGH = 0x00, LOW = 0x01\<rparr>,
         AF := \<lparr>HIGH = 0x00, LOW = 0x30\<rparr>, PC := 1, ticks := 8\<rparr>"
proof -
  have "add_16bit_hl_bc ((GameBoyColorCPU [])\<lparr>HL := \<lparr>HIGH = 0x0F, LOW = 0xFF\<rparr>, BC := \<lparr>HIGH = 0x00, LOW = 0x01\<rparr>\<rparr>)
     = (GameBoyColorCPU [])\<lparr>HL := \<lparr>HIGH = 0x10, LOW = 0x00\<rparr>, BC := \<lparr>HIGH = 0x00, LOW = 0x01\<rparr>,
         AF := \<lparr>HIGH = 0x00, LOW = 0x20\<rparr>, PC := 1, ticks := 8\<rparr>"
    using add_16bit_hl_rr [of "(GameBoyColorCPU [])\<lparr>HL := \<lparr>HIGH = 0x0F, LOW = 0xFF\<rparr>, BC := \<lparr>HIGH = 0x00, LOW = 0x01\<rparr>\<rparr>"]
    by (simp add: halves_in_range_def GameBoyColorCPU_def Let_def)
  moreover have "add_16bit_hl_de ((GameBoyColorCPU [])\<lparr>HL := \<lparr>HIGH = 0xFF, LOW = 0xFF\<rparr>, DE := \<lparr>HIGH = 0x00, LOW = 0x01\<rparr>\<rparr>)
     = (GameBoyColorCPU [])\<lparr>HL := \<lparr>HIGH = 0x00, LOW = 0x00\<rparr>, DE := \<lparr>HIGH = 0x00, LOW = 0x01\<rparr>,
         AF := \<lparr>HIGH = 0x00, LOW = 0x30\<rparr>, PC := 1, ticks := 8\<rparr>"
    using add_16bit_hl_rr [of "(GameBoyColorCPU [])\<lparr>HL := \<lparr>HIGH = 0xFF, LOW = 0xFF\<rparr>, DE := \<lparr>HIGH = 0x00, LOW = 0x01\<rparr>\<rparr>"]
    by (simp add: halves_in_range_def GameBoyColorCPU_def Let_def)
  ultimately show ?thesis by simp
qed

section \<open>The ranges of the registers\<close>

text \<open>
  What the masks of the source keep: started in a state whose registers are in
  range, every operation of the opcode table, and the run loop itself when it
  comes back, ends (returning or raising) in a state whose pair halves are in
  [0, 0xFF] and whose SP is in [0, 0xFFFF]. The reset state is in range
  (\<open>reset_in_range\<close>).
\<close>

lemma operations_stay_in_range:
  assumes "registers_in_range s"
  shows "(\<forall>k operation. (k, operation) \<in> set opcode_table \<longrightarrow> stays_in_range s (operation s))
       \<and> (\<forall>r. main_loop s = Some r \<longrightarrow> stays_in_range s r)"
  using opcode_table_range [OF assms] main_loop_range [of s] assms by auto

text \<open>
  C6. After every operation each half of each pair should be in [0, 0xFF] and SP
  and PC in [0, 0xFFFF]. The source calls PC a 16-bit register and masks every
  pair it writes, but it never masks PC. From reset, 65535 calls of \<open>nop\<close> leave a
  state with every register within those bounds, PC = 0xFFFF included; one more
  \<open>nop\<close>, the table's entry 0x00, returns with PC = 0x10000, outside them.
\<close>

theorem nop_leaves_PC_above_0xFFFF:
  "masking_invariant ((nop ^^ 65535) (GameBoyColorCPU []))
   \<and> (0x00, returns nop) \<in> set opcode_table
   \<and> returns nop ((nop ^^ 65535) (GameBoyColorCPU []))
        = Inr ((GameBoyColorCPU [])\<lparr>PC := 0x10000, ticks := 0x40000\<rparr>)
   \<and> \<not> masking_invariant ((GameBoyColorCPU [])\<lparr>PC := 0x10000, ticks := 0x40000\<rparr>)"
  by (simp add: nop_funpow returns_def nop_def tick_eq masking_invariant_def in_range_defs
      GameBoyColorCPU_def opcode_table_def)

section \<open>Fetches past the end of the program memory\<close>

text \<open>
  C5. A fetch at an index at or past the end of \<open>game_data\<close> raises \<open>IndexError\<close>;
  no byte is read. When PC is past the end the run loop stops with that error in
  the state it was in. When PC + 1 is past the end, every operation with an
  immediate operand (the five \<open>ld r, d8\<close>, the three \<open>ld rr, d16\<close>, \<open>ld (a16), sp\<close>,
  \<open>jr r8\<close>, and \<open>jr nz, r8\<close> when Z is clear) raises it with the state unchanged.
  When PC + 2 is past the end, the operations with a 16-bit operand raise it.
\<close>

theorem fetch_out_of_bounds:
  "(int (length (game_data s)) \<le> PC s \<longrightarrow> main_loop s = Some (Inl (IndexError, s)))
   \<and> (int (length (game_data s)) \<le> PC s + 1 \<longrightarrow>
        ld_8bit_b_d8 s = Inl (IndexError, s) \<and> ld_8bit_c_d8 s = Inl (IndexError, s)
        \<and> ld_8bit_d_d8 s = Inl (IndexError, s) \<and> ld_8bit_e_d8 s = Inl (IndexError, s)
        \<and> ld_8bit_h_d8 s = Inl (IndexError, s)
        \<and> ld_16bit_bc s = Inl (IndexError, s) \<and> ld_16bit_de s = Inl (IndexError, s)
        \<and> ld_16bit_hl s = Inl (IndexError, s) \<and> ld_16bit_a16_sp s = Inl (IndexError, s)
        \<and> jr_8bit_r8 s = Inl (IndexError, s)
        \<and> (LOW (AF s) AND 0x80 = 0 \<longrightarrow> jr_8bit_nz_r8 s = Inl (IndexError, s)))
   \<and> (int (length (game_data s)) \<le> PC s + 2 \<longrightarrow>
        (\<exists>s'. ld_16bit_bc s = Inl (IndexError, s')) \<and> (\<exists>s'. ld_16bit_de s = Inl (IndexError, s'))
        \<and> (\<exists>s'. ld_16bit_hl s = Inl (IndexError, s'))
        \<and> (\<exists>s'. ld_16bit_a16_sp s = Inl (IndexError, s')))"
proof (intro conjI impI)
  assume "int (length (game_data s)) \<le> PC s"
  then show "main_loop s = Some (Inl (IndexError, s))"
    by (subst main_loop.simps) (simp add: getitem_past_end)
next
  assume "int (length (game_data s)) \<le> PC s + 1"
  then have g: "getitem (game_data s) (PC s + 1) = Inl IndexError" by (rule getitem_past_end)
  show "ld_8bit_b_d8 s = Inl (IndexError, s)" "ld_8bit_c_d8 s = Inl (IndexError, s)"
    "ld_8bit_d_d8 s = Inl (IndexError, s)" "ld_8bit_e_d8 s = Inl (IndexError, s)"
    "ld_8bit_h_d8 s = Inl (IndexError, s)"
    by (simp_all add: ld_8bit_d8_defs g)
  show "ld_16bit_bc s = Inl (IndexError, s)" "ld_16bit_de s = Inl (IndexError, s)"
    "ld_16bit_hl s = Inl (IndexError, s)" "ld_16bit_a16_sp s = Inl (IndexError, s)"
    by (simp_all add: ld_16bit_bc_def ld_16bit_de_def ld_16bit_hl_def ld_16bit_a16_sp_def g)
  show "jr_8bit_r8 s = Inl (IndexError, s)" by (simp add: jr_8bit_r8_def g)
  show "jr_8bit_nz_r8 s = Inl (IndexError, s)" if "LOW (AF s) AND 0x80 = 0"
    using that by (simp add: jr_8bit_nz_r8_def g)
next
  assume "int (length (game_data s)) \<le> PC s + 2"
  then have g: "getitem (game_data s) (PC s + 2) = Inl IndexError" by (rule getitem_past_end)
  show "\<exists>s'. ld_16bit_bc s = Inl (IndexError, s')"
    using g by (auto simp: ld_16bit_bc_def Let_def split: sum.splits dest: getitem_error)
  show "\<exists>s'. ld_16bit_de s = Inl (IndexError, s')"
    using g by (auto simp: ld_16bit_de_def Let_def split: sum.splits dest: getitem_error)
  show "\<exists>s'. ld_16bit_hl s = Inl (IndexError, s')"
    using g by (auto simp: ld_16bit_hl_def Let_def split: sum.splits dest: getitem_error)
  show "\<exists>s'. ld_16bit_a16_sp s = Inl (IndexError, s')"
    using g by (auto simp: ld_16bit_a16_sp_def Let_def split: sum.splits dest: getitem_error)
qed

theorem fetch_out_of_bounds_witness:
  "main_loop (GameBoyColorCPU []) = Some (Inl (IndexError, GameBoyColorCPU []))
   \<and> ld_8bit_b_d8 (GameBoyColorCPU [0x06]) = Inl (IndexError, GameBoyColorCPU [0x06])
   \<and> (\<exists>s'. ld_16bit_bc (GameBoyColorCPU [0x01, 0x12]) = Inl (IndexError, s'))"
proof -
  have "int (length (game_data (GameBoyColorCPU []))) \<le> PC (GameBoyColorCPU [])"
    by (simp add: GameBoyColorCPU_def)
  with fetch_out_of_bounds [of "GameBoyColorCPU []"]
  have "main_loop (GameBoyColorCPU []) = Some (Inl (IndexError, GameBoyColorCPU []))" by blast
  moreover have "int (length (game_data (GameBoyColorCPU [0x06]))) \<le> PC (GameBoyColorCPU [0x06]) + 1"
    by (simp add: GameBoyColorCPU_def)
  with fetch_out_of_bounds [of "GameBoyColorCPU [0x06]"]
  have "ld_8bit_b_d8 (GameBoyColorCPU [0x06]) = Inl (IndexError, GameBoyColorCPU [0x06])" by blast
  moreover have "int (length (game_data (GameBoyColorCPU [0x01, 0x12])))
      \<le> PC (GameBoyColorCPU [0x01, 0x12]) + 2"
    by (simp add: GameBoyColorCPU_def)
  with fetch_out_of_bounds [of "GameBoyColorCPU [0x01, 0x12]"]
  have "\<exists>s'. ld_16bit_bc (GameBoyColorCPU [0x01, 0x12]) = Inl (IndexError, s')" by blast
  ultimately show ?thesis by blast
qed

section \<open>Wrap-around of the increments and decrements\<close>

text \<open>
  C9. Started with the halves of BC, DE and HL in [0, 0xFF], 256 calls of an 8-bit
  increment or decrement bring the half it changes back to its starting value, and
  65536 calls of a 16-bit increment or decrement bring its pair back to its
  starting value.
\<close>

theorem inc_dec_wraparound:
  assumes "halves_in_range (BC s)" and "halves_in_range (DE s)" and "halves_in_range (HL s)"
  shows "HIGH (BC ((inc_8bit_b ^^ 256) s)) = HIGH (BC s)
       \<and> LOW (BC ((inc_8bit_c ^^ 256) s)) = LOW (BC s)
       \<and> HIGH (DE ((inc_8bit_d ^^ 256) s)) = HIGH (DE s)
       \<and> LOW (DE ((inc_8bit_e ^^ 256) s)) = LOW (DE s)
       \<and> HIGH (HL ((inc_8bit_h ^^ 256) s)) = HIGH (HL s)
       \<and> HIGH (BC ((dec_8bit_b ^^ 256) s)) = HIGH (BC s)
       \<and> LOW (BC ((dec_8bit_c ^^ 256) s)) = LOW (BC s)
       \<and> HIGH (DE ((dec_8bit_d ^^ 256) s)) = HIGH (DE s)
       \<and> LOW (DE ((dec_8bit_e ^^ 256) s)) = LOW (DE s)
       \<and> HIGH (HL ((dec_8bit_h ^^ 256) s)) = HIGH (HL s)
       \<and> BC ((inc_16bit_bc ^^ 65536) s) = BC s
       \<and> DE ((inc_16bit_de ^^ 65536) s) = DE s
       \<and> HL ((inc_16bit_hl ^^ 65536) s) = HL s
       \<and> BC ((dec_16bit_bc ^^ 65536) s) = BC s
       \<and> DE ((dec_16bit_de ^^ 65536) s) = DE s"
proof -
  have r: "0 \<le> HIGH (BC s)" "HIGH (BC s) < int 256" "0 \<le> LOW (BC s)" "LOW (BC s) < int 256"
    "0 \<le> HIGH (DE s)" "HIGH (DE s) < int 256" "0 \<le> LOW (DE s)" "LOW (DE s) < int 256"
    "0 \<le> HIGH (HL s)" "HIGH (HL s) < int 256"
    using assms by (simp_all add: halves_in_range_def)
  have "HIGH (BC ((inc_8bit_b ^^ 256) s)) = HIGH (BC s)"
    by (rule funpow_wrap_inc_full [where g = "\<lambda>t. HIGH (BC t)", OF inc_8bit_step(1) _ r(1,2)]) simp
  moreover have "LOW (BC ((inc_8bit_c ^^ 256) s)) = LOW (BC s)"
    by (rule funpow_wrap_inc_full [where g = "\<lambda>t. LOW (BC t)", OF inc_8bit_step(2) _ r(3,4)]) simp
  moreover have "HIGH (DE ((inc_8bit_d ^^ 256) s)) = HIGH (DE s)"
    by (rule funpow_wrap_inc_full [where g = "\<lambda>t. HIGH (DE t)", OF inc_8bit_step(3) _ r(5,6)]) simp
  moreover have "LOW (DE ((inc_8bit_e ^^ 256) s)) = LOW (DE s)"
    by (rule funpow_wrap_inc_full [where g = "\<lambda>t. LOW (DE t)", OF inc_8bit_step(4) _ r(7,8)]) simp
  moreover have "HIGH (HL ((inc_8bit_h ^^ 256) s)) = HIGH (HL s)"
    by (rule funpow_wrap_inc_full [where g = "\<lambda>t. HIGH (HL t)", OF inc_8bit_step(5) _ r(9,10)]) simp
  moreover have "HIGH (BC ((dec_8bit_b ^^ 256) s)) = HIGH (BC s)"
    by (rule funpow_wrap_dec_full [where g = "\<lambda>t. HIGH (BC t)", OF dec_8bit_step(1) _ r(1,2)]) simp
  moreover have "LOW (BC ((dec_8bit_c ^^ 256) s)) = LOW (BC s)"
    by (rule funpow_wrap_dec_full [where g = "\<lambda>t. LOW (BC t)", OF dec_8bit_step(2) _ r(3,4)]) simp
  moreover have "HIGH (DE ((dec_8bit_d ^^ 256) s)) = HIGH (DE s)"
    by (rule funpow_wrap_dec_full [where g = "\<lambda>t. HIGH (DE t)", OF dec_8bit_step(3) _ r(5,6)]) simp
  moreover have "LOW (DE ((dec_8bit_e ^^ 256) s)) = LOW (DE s)"
    by (rule funpow_wrap_dec_full [where g = "\<lambda>t. LOW (DE t)", OF dec_8bit_step(4) _ r(7,8)]) simp
  moreover have "HIGH (HL ((dec_8bit_h ^^ 256) s)) = HIGH (HL s)"
    by (rule funpow_wrap_dec_full [where g = "\<lambda>t. HIGH (HL t)", OF dec_8bit_step(5) _ r(9,10)]) simp
  moreover have "BC ((inc_16bit_bc ^^ 65536) s) = BC s"
    by (rule funpow_wrap_pair_inc [OF inc_16bit_step(1) inc_dec_16bit_low(1) assms(1)])
  moreover have "DE ((inc_16bit_de ^^ 65536) s) = DE s"
    by (rule funpow_wrap_pair_inc [OF inc_16bit_step(2) inc_dec_16bit_low(2) assms(2)])
  moreover have "HL ((inc_16bit_hl ^^ 65536) s) = HL s"
    by (rule funpow_wrap_pair_inc [OF inc_16bit_step(3) inc_dec_16bit_low(3) assms(3)])
  moreover have "BC ((dec_16bit_bc ^^ 65536) s) = BC s"
    by (rule funpow_wrap_pair_dec [OF dec_16bit_step(1) inc_dec_16bit_low(4) assms(1)])
  moreover have "DE ((dec_16bit_de ^^ 65536) s) = DE s"
    by (rule funpow_wrap_pair_dec [OF dec_16bit_step(2) inc_dec_16bit_low(5) assms(2)])
  ultimately show ?thesis by (intro conjI) assumption+
qed

theorem inc_dec_wraparound_witness:
  "halves_in_range (BC (GameBoyColorCPU [])) \<and> halves_in_range (DE (GameBoyColorCPU []))
   \<and> halves_in_range (HL (GameBoyColorCPU []))
   \<and> HIGH (BC ((inc_8bit_b ^^ 256) (GameBoyColorCPU []))) = 0x00
   \<and> BC ((dec_16bit_bc ^^ 65536) (GameBoyColorCPU [])) = \<lparr>HIGH = 0x00, LOW = 0x00\<rparr>"
proof -
  have h: "halves_in_range (BC (GameBoyColorCPU []))" "halves_in_range (DE (GameBoyColorCPU []))"
    "halves_in_range (HL (GameBoyColorCPU []))"
    by (simp_all add: halves_in_range_def GameBoyColorCPU_def)
  note w = inc_dec_wraparound [OF h]
  from w have "HIGH (BC ((inc_8bit_b ^^ 256) (GameBoyColorCPU []))) = HIGH (BC (GameBoyColorCPU []))"
    by blast
  also have "\<dots> = 0x00" by (simp add: GameBoyColorCPU_def)
  finally have a: "HIGH (BC ((inc_8bit_b ^^ 256) (GameBoyColorCPU []))) = 0x00" .
  from w have "BC ((dec_16bit_bc ^^ 65536) (GameBoyColorCPU [])) = BC (GameBoyColorCPU [])"
    by blast
  also have "\<dots> = \<lparr>HIGH = 0x00, LOW = 0x00\<rparr>" by (simp add: GameBoyColorCPU_def)
  finally have b: "BC ((dec_16bit_bc ^^ 65536) (GameBoyColorCPU [])) = \<lparr>HIGH = 0x00, LOW = 0x00\<rparr>" .
  from h a b show ?thesis by (intro conjI)
qed

end
